theory Spec2Isabelle
  imports Main "HOL-Library.Char_ord" "HOL-Library.List_Lexorder" "HOL-Library.Product_Lexorder"
begin

section \<open>Values of the Python and Django runtime\<close>

text \<open>
  An instant is an aware UTC \<open>datetime\<close>, held as the number of microseconds since
  1970-01-01T00:00:00Z; a \<open>timedelta\<close> is a number of microseconds; a \<open>date\<close> is a
  number of days since 1970-01-01. A run of a service function reads the clock once:
  the parameter \<open>now\<close> stands for every \<open>timezone.now()\<close> of that run.
\<close>

type_synonym datetime = int
type_synonym date = int

definition timedelta_hours :: "int \<Rightarrow> int" where
  "timedelta_hours h = h * 3600000000"

definition timedelta_days :: "int \<Rightarrow> int" where
  "timedelta_days d = d * 86400000000"

definition date_of :: "datetime \<Rightarrow> date" where
  "date_of t = t div 86400000000"

definition digit :: "nat \<Rightarrow> char" where
  "digit n = ''0123456789'' ! (n mod 10)"

fun show_nat :: "nat \<Rightarrow> string" where
  "show_nat n = (if n < 10 then [digit n] else show_nat (n div 10) @ [digit n])"

declare show_nat.simps [simp del]

definition zero_pad :: "nat \<Rightarrow> string \<Rightarrow> string" where
  "zero_pad w s = replicate (w - length s) (CHR ''0'') @ s"

text \<open>The proleptic Gregorian calendar: year, month and day of a day number.\<close>

definition civil_from_days :: "date \<Rightarrow> int \<times> int \<times> int" where
  "civil_from_days z0 =
     (let z = z0 + 719468;
          era = z div 146097;
          doe = z - era * 146097;
          yoe = (doe - doe div 1460 + doe div 36524 - doe div 146096) div 365;
          y = yoe + era * 400;
          doy = doe - (365 * yoe + yoe div 4 - yoe div 100);
          mp = (5 * doy + 2) div 153;
          d = doy - (153 * mp + 2) div 5 + 1;
          m = (if mp < 10 then mp + 3 else mp - 9)
      in (if m \<le> 2 then y + 1 else y, m, d))"

definition fmt_year :: "date \<Rightarrow> string" where
  "fmt_year d = (case civil_from_days d of (y, m, dd) \<Rightarrow> zero_pad 4 (show_nat (nat y)))"

definition fmt_month :: "date \<Rightarrow> string" where
  "fmt_month d = (case civil_from_days d of (y, m, dd) \<Rightarrow> zero_pad 2 (show_nat (nat m)))"

definition fmt_day :: "date \<Rightarrow> string" where
  "fmt_day d = (case civil_from_days d of (y, m, dd) \<Rightarrow> zero_pad 2 (show_nat (nat dd)))"

text \<open>\<open>str(date)\<close> and \<open>strftime("%Y-%m-%d")\<close>.\<close>

definition str_date :: "date \<Rightarrow> string" where
  "str_date d = fmt_year d @ ''-'' @ fmt_month d @ ''-'' @ fmt_day d"

text \<open>\<open>strftime("%Y-%m")\<close> and \<open>strftime("%H:%M")\<close> of an instant.\<close>

definition strftime_Ym :: "datetime \<Rightarrow> string" where
  "strftime_Ym t = fmt_year (date_of t) @ ''-'' @ fmt_month (date_of t)"

definition strftime_HM :: "datetime \<Rightarrow> string" where
  "strftime_HM t =
     (let r = t mod 86400000000
      in zero_pad 2 (show_nat (nat (r div 3600000000))) @ '':'' @
         zero_pad 2 (show_nat (nat ((r div 60000000) mod 60))))"

text \<open>
  \<open>datetime.isoformat(sep)\<close> of an aware UTC instant; the fraction is printed only when
  the microseconds are not zero. \<open>str(datetime)\<close> is \<open>isoformat(' ')\<close>.
\<close>

definition isoformat_sep :: "char \<Rightarrow> datetime \<Rightarrow> string" where
  "isoformat_sep sep t =
     (let r = t mod 86400000000;
          us = r mod 1000000
      in str_date (date_of t) @ [sep] @
         zero_pad 2 (show_nat (nat (r div 3600000000))) @ '':'' @
         zero_pad 2 (show_nat (nat ((r div 60000000) mod 60))) @ '':'' @
         zero_pad 2 (show_nat (nat ((r div 1000000) mod 60))) @
         (if us = 0 then [] else ''.'' @ zero_pad 6 (show_nat (nat us))) @
         ''+00:00'')"

definition isoformat :: "datetime \<Rightarrow> string" where
  "isoformat t = isoformat_sep (CHR ''T'') t"

definition str_datetime :: "datetime \<Rightarrow> string" where
  "str_datetime t = isoformat_sep (CHR '' '') t"

text \<open>
  A \<open>DecimalField(decimal_places=2)\<close> is held as a number of hundredths;
  \<open>str_decimal\<close> is \<open>str\<close> of such a \<open>Decimal\<close>.
\<close>

type_synonym decimal = int

definition str_decimal :: "decimal \<Rightarrow> string" where
  "str_decimal a =
     (if a < 0 then ''-'' else []) @ show_nat (nat (\<bar>a\<bar> div 100)) @ ''.'' @
     zero_pad 2 (show_nat (nat (\<bar>a\<bar> mod 100)))"

text \<open>
  JSON values of a \<open>JSONField\<close>. A Python \<open>dict\<close> is an association list in insertion
  order: an assignment to a present key replaces the value in place, an assignment to
  a new key appends.
\<close>

datatype json = JNull | JInt int | JStr string | JObj "(string \<times> json) list"

type_synonym py_dict = "(string \<times> json) list"

fun dict_set :: "string \<Rightarrow> json \<Rightarrow> py_dict \<Rightarrow> py_dict" where
  "dict_set k v [] = [(k, v)]"
| "dict_set k v ((k', v') # d) = (if k' = k then (k, v) # d else (k', v') # dict_set k v d)"

definition dict_get :: "py_dict \<Rightarrow> string \<Rightarrow> json option" where
  "dict_get d k = map_of d k"

definition dict_keys :: "py_dict \<Rightarrow> string list" where
  "dict_keys d = map fst d"

text \<open>\<open>x or default\<close> on strings: the empty string is falsy.\<close>

definition str_or :: "string \<Rightarrow> string \<Rightarrow> string" where
  "str_or s dflt = (if s \<noteq> [] then s else dflt)"


datatype py_error =
  TypeError | AttributeError | ValueError string | MultipleObjectsReturned | DataError

section \<open>The data model (core/models.py, integrations/models.py, operations/models.py)\<close>

text \<open>
  Each Django model is a record of the columns the services read or write; a foreign
  key holds the primary key of the row it points to. A table is the list of its rows.
  The columns \<open>created_at\<close> and \<open>updated_at\<close>, which the framework maintains by itself
  on every save, are not part of the records except where a query orders by them.
\<close>

record clinic =
  clinic_id :: nat
  clinic_name :: string
  clinic_is_active :: bool

record patient =
  patient_id :: nat
  patient_clinic :: nat
  first_name :: string
  last_name :: string
  patient_email :: string
  patient_phone :: string
  sms_consent :: bool
  email_consent :: bool
  last_appointment_date :: "date option"

record appointment =
  appt_id :: nat
  appt_clinic :: nat
  appt_patient :: nat
  appt_cliniko_id :: string
  appt_scheduled_at :: datetime
  appt_status :: string

record invoice =
  invoice_id :: nat
  invoice_total_amount :: decimal
  invoice_paid_at :: "datetime option"

record call_event =
  call_id :: nat
  call_clinic :: nat
  call_sid :: string
  caller_phone :: string
  duration_seconds :: nat
  call_timestamp :: datetime
  campaign_id :: string
  call_campaign_name :: string
  is_processed :: bool
  resulted_in_appointment :: bool

record marketing_touch =
  touch_id :: nat
  touch_clinic :: nat
  touch_email :: string
  utm_source :: string
  utm_medium :: string
  utm_campaign :: string
  touch_timestamp :: datetime

record task =
  task_id :: nat
  task_clinic :: nat
  task_patient :: nat
  task_type :: string
  title :: string
  description :: string
  priority :: nat
  task_status :: string
  source_type :: string
  source_id :: "nat option"
  idempotency_key :: "string option"

record review_request =
  rr_id :: nat
  rr_clinic :: nat
  rr_patient :: nat
  rr_appointment :: nat
  rr_status :: string
  channel :: string
  rr_scheduled_at :: datetime
  rr_idempotency_key :: string

record treatment_plan =
  plan_id :: nat
  plan_clinic :: nat
  plan_patient :: nat
  plan_title :: string
  plan_status :: string
  sent_at :: "datetime option"
  plan_created_at :: datetime

datatype content_type = CallEventCT | MarketingTouchCT

record attribution =
  attr_id :: nat
  attr_patient :: nat
  attr_clinic :: nat
  attribution_type :: string
  attr_status :: string
  content_type :: "content_type option"
  object_id :: "nat option"
  campaign_name :: string
  campaign_source :: string
  campaign_medium :: string
  evidence_json :: py_dict
  first_invoice_amount :: "decimal option"
  first_invoice_date :: "date option"
  overridden_by :: "nat option"
  override_reason :: string
  overridden_at :: "datetime option"

text \<open>
  The database: one list of rows per table, and \<open>tie_rank\<close>, which stands for the order
  in which the database returns rows of a table that compare equal under the ordering
  of a query (the rank of a row, by primary key). It belongs to the stored state; no
  service function changes it.
\<close>

datatype table = Clinics | Patients | Appointments | CallEvents | MarketingTouches | TreatmentPlans

record db =
  clinics :: "clinic list"
  patients :: "patient list"
  appointments :: "appointment list"
  call_events :: "call_event list"
  marketing_touches :: "marketing_touch list"
  treatment_plans :: "treatment_plan list"
  tasks :: "task list"
  review_requests :: "review_request list"
  attributions :: "attribution list"
  tie_rank :: "table \<Rightarrow> nat \<Rightarrow> nat"

text \<open>
  A query returns the matching rows in the order of its \<open>order_by\<close>, or of the model's
  \<open>Meta.ordering\<close>: ascending in the key, and rows with equal keys in the order the
  database chooses, ascending in their rank. \<open>first()\<close> is the first row of the result,
  or \<open>None\<close>. An auto-increment primary key is one more than the largest key in the
  table.
\<close>

definition order_by :: "('a \<Rightarrow> 'k::linorder) \<Rightarrow> ('a \<Rightarrow> nat) \<Rightarrow> 'a list \<Rightarrow> 'a list" where
  "order_by key rank rows = sort_key (\<lambda>r. (key r, rank r)) rows"

definition first :: "'a list \<Rightarrow> 'a option" where
  "first xs = (case xs of [] \<Rightarrow> None | x # _ \<Rightarrow> Some x)"

definition next_pk :: "nat list \<Rightarrow> nat" where
  "next_pk ks = Suc (foldr max ks 0)"

definition clinic_active :: "db \<Rightarrow> nat \<Rightarrow> bool" where
  "clinic_active d cid = list_ex (\<lambda>c. clinic_id c = cid \<and> clinic_is_active c) (clinics d)"

definition get_patient :: "db \<Rightarrow> nat \<Rightarrow> patient option" where
  "get_patient d pid = find (\<lambda>p. patient_id p = pid) (patients d)"

section \<open>The task generators (operations/tasks.py)\<close>

text \<open>\<open>Task.objects.filter(idempotency_key=key).exists()\<close>\<close>

definition task_exists :: "db \<Rightarrow> string \<Rightarrow> bool" where
  "task_exists d key = list_ex (\<lambda>t. idempotency_key t = Some key) (tasks d)"

text \<open>
  \<open>Task.objects.create(...)\<close>: the fields not given take the model's defaults
  (status \<open>pending\<close>, empty source type, no source id). \<open>task_create\<close> is the insert
  of a row that fits its columns. The rows of the callback and of the recall generator
  always fit: by the bounds of the columns they are built from, a callback title has
  at most 78 characters, a recall title at most 209 and a key at most 114. The title
  of a follow-up task can be longer than its column allows; that insert goes through
  \<open>task_create_title\<close> below.
\<close>

definition task_create :: "task \<Rightarrow> db \<Rightarrow> db" where
  "task_create t d = d\<lparr>tasks := tasks d @ [t\<lparr>task_id := next_pk (map task_id (tasks d))\<rparr>]\<rparr>"

text \<open>\<open>call.is_processed = True; call.save(update_fields=['is_processed'])\<close>\<close>

definition save_is_processed :: "call_event \<Rightarrow> db \<Rightarrow> db" where
  "save_is_processed call d =
     d\<lparr>call_events :=
         map (\<lambda>c. if call_id c = call_id call then c\<lparr>is_processed := True\<rparr> else c)
           (call_events d)\<rparr>"

definition missed_calls :: "datetime \<Rightarrow> clinic \<Rightarrow> db \<Rightarrow> call_event list" where
  "missed_calls now cl d =
     (let cutoff = now - timedelta_hours 24
      in order_by (\<lambda>c. - call_timestamp c) (\<lambda>c. tie_rank d CallEvents (call_id c))
           (filter (\<lambda>c. call_clinic c = clinic_id cl \<and> cutoff \<le> call_timestamp c \<and>
                         duration_seconds c < 30 \<and> \<not> resulted_in_appointment c \<and>
                         \<not> is_processed c)
              (call_events d)))"

definition patient_by_phone :: "db \<Rightarrow> clinic \<Rightarrow> string \<Rightarrow> patient option" where
  "patient_by_phone d cl phone =
     first (order_by (\<lambda>p. (last_name p, first_name p))
              (\<lambda>p. tie_rank d Patients (patient_id p))
              (filter (\<lambda>p. patient_clinic p = clinic_id cl \<and> patient_phone p = phone)
                 (patients d)))"

definition callback_task :: "clinic \<Rightarrow> patient \<Rightarrow> call_event \<Rightarrow> string \<Rightarrow> task" where
  "callback_task cl p call key =
     \<lparr>task_id = 0, task_clinic = clinic_id cl, task_patient = patient_id p,
      task_type = ''callback'',
      title = ''Callback - Missed call from '' @ caller_phone call,
      description = ''Missed call at '' @ strftime_HM (call_timestamp call) @
                    ''. Duration: '' @ show_nat (duration_seconds call) @ ''s'',
      priority = 2, task_status = ''pending'',
      source_type = ''call_event'', source_id = Some (call_id call),
      idempotency_key = Some key\<rparr>"

text \<open>The idempotency key \<open>f"callback_call_{call.call_sid}"\<close>.\<close>

definition callback_key :: "call_event \<Rightarrow> string" where
  "callback_key call = ''callback_call_'' @ call_sid call"

text \<open>The inner loop \<open>for call in missed_calls\<close>, on the counter and the database.\<close>

fun missed_call_loop :: "clinic \<Rightarrow> call_event list \<Rightarrow> nat \<times> db \<Rightarrow> nat \<times> db" where
  "missed_call_loop cl [] (tasks_created, d) = (tasks_created, d)"
| "missed_call_loop cl (call # calls) (tasks_created, d) =
     (let idempotency_key = callback_key call
      in if task_exists d idempotency_key then missed_call_loop cl calls (tasks_created, d)
         else (case patient_by_phone d cl (caller_phone call) of
                 None \<Rightarrow> missed_call_loop cl calls (tasks_created, d)
               | Some p \<Rightarrow>
                   missed_call_loop cl calls
                     (tasks_created + 1,
                      save_is_processed call
                        (task_create (callback_task cl p call idempotency_key) d))))"

text \<open>The outer loop \<open>for clinic in clinics\<close>: each clinic's query runs when its turn comes.\<close>

fun clinic_loop :: "datetime \<Rightarrow> clinic list \<Rightarrow> nat \<times> db \<Rightarrow> nat \<times> db" where
  "clinic_loop now [] (tasks_created, d) = (tasks_created, d)"
| "clinic_loop now (cl # cls) (tasks_created, d) =
     clinic_loop now cls (missed_call_loop cl (missed_calls now cl d) (tasks_created, d))"

definition generate_missed_call_tasks :: "datetime \<Rightarrow> db \<Rightarrow> nat \<times> db" where
  "generate_missed_call_tasks now d =
     clinic_loop now
       (order_by clinic_name (\<lambda>c. tie_rank d Clinics (clinic_id c))
          (filter clinic_is_active (clinics d)))
       (0, d)"

text \<open>
  \<open>generate_review_request_tasks\<close>. The query joins each appointment with its patient
  (\<open>select_related\<close>) and keeps the appointments of active clinics.
\<close>

definition review_key :: "appointment \<Rightarrow> string" where
  "review_key appt = ''review_'' @ appt_cliniko_id appt"

definition review_request_exists :: "db \<Rightarrow> string \<Rightarrow> bool" where
  "review_request_exists d key = list_ex (\<lambda>r. rr_idempotency_key r = key) (review_requests d)"

definition review_request_create :: "review_request \<Rightarrow> db \<Rightarrow> db" where
  "review_request_create r d =
     d\<lparr>review_requests :=
         review_requests d @ [r\<lparr>rr_id := next_pk (map rr_id (review_requests d))\<rparr>]\<rparr>"

definition review_appointments :: "datetime \<Rightarrow> db \<Rightarrow> (appointment \<times> patient) list" where
  "review_appointments now d =
     (let target_time = now - timedelta_hours 24;
          window_start = target_time - timedelta_hours 1;
          window_end = target_time + timedelta_hours 1
      in List.map_filter (\<lambda>a. map_option (Pair a) (get_patient d (appt_patient a)))
           (order_by (\<lambda>a. - appt_scheduled_at a)
              (\<lambda>a. tie_rank d Appointments (appt_id a))
              (filter (\<lambda>a. appt_status a = ''completed'' \<and> clinic_active d (appt_clinic a) \<and>
                            window_start \<le> appt_scheduled_at a \<and>
                            appt_scheduled_at a \<le> window_end)
                 (appointments d))))"

definition review_channel :: "patient \<Rightarrow> string" where
  "review_channel p = (if sms_consent p then ''sms'' else ''email'')"

fun review_loop :: "datetime \<Rightarrow> (appointment \<times> patient) list \<Rightarrow> nat \<times> db \<Rightarrow> nat \<times> db" where
  "review_loop now [] (requests_created, d) = (requests_created, d)"
| "review_loop now ((appt, p) # appts) (requests_created, d) =
     (if \<not> (sms_consent p \<or> email_consent p) then review_loop now appts (requests_created, d)
      else let idempotency_key = review_key appt
           in if review_request_exists d idempotency_key
              then review_loop now appts (requests_created, d)
              else let chan = review_channel p
                   in review_loop now appts
                        (requests_created + 1,
                         review_request_create
                           \<lparr>rr_id = 0, rr_clinic = appt_clinic appt, rr_patient = patient_id p,
                            rr_appointment = appt_id appt, rr_status = ''pending'',
                            channel = chan, rr_scheduled_at = now,
                            rr_idempotency_key = idempotency_key\<rparr> d))"

definition generate_review_request_tasks :: "datetime \<Rightarrow> db \<Rightarrow> nat \<times> db" where
  "generate_review_request_tasks now d = review_loop now (review_appointments now d) (0, d)"

text \<open>
  \<open>generate_treatment_followup_tasks\<close>. A plan whose \<open>sent_at\<close> is null never matches the
  window; \<open>plan.sent_at.strftime\<close> on a null \<open>sent_at\<close> would raise.

  The title is 29 characters and the plan's title, which has up to 255, in a column
  \<open>varchar(255)\<close>. PostgreSQL stores a longer string only when all the excess characters
  are spaces, cut to the bound, and raises otherwise (\<open>DataError\<close>). The generator runs
  outside a transaction, so the rows created before an exception stay: the result of
  a run is its outcome (the count, or the exception) and the database it leaves.
\<close>

definition varchar :: "nat \<Rightarrow> string \<Rightarrow> py_error + string" where
  "varchar n s =
     (if length s \<le> n then Inr s
      else if list_all (\<lambda>c. c = CHR '' '') (drop n s) then Inr (take n s)
      else Inl DataError)"

definition task_create_title :: "task \<Rightarrow> db \<Rightarrow> py_error + db" where
  "task_create_title t d =
     (case varchar 255 (title t) of
        Inl e \<Rightarrow> Inl e
      | Inr s \<Rightarrow> Inr (task_create (t\<lparr>title := s\<rparr>) d))"

definition treatment_key :: "treatment_plan \<Rightarrow> string" where
  "treatment_key plan = ''treatment_followup_'' @ show_nat (plan_id plan)"

definition followup_plans :: "datetime \<Rightarrow> db \<Rightarrow> treatment_plan list" where
  "followup_plans now d =
     (let target_date = now - timedelta_days 7;
          window_start = target_date - timedelta_hours 12;
          window_end = target_date + timedelta_hours 12
      in order_by (\<lambda>p. - plan_created_at p) (\<lambda>p. tie_rank d TreatmentPlans (plan_id p))
           (filter (\<lambda>p. plan_status p = ''sent'' \<and> clinic_active d (plan_clinic p) \<and>
                         (case sent_at p of None \<Rightarrow> False
                          | Some t \<Rightarrow> window_start \<le> t \<and> t \<le> window_end) \<and>
                         get_patient d (plan_patient p) \<noteq> None)
              (treatment_plans d)))"

definition followup_task :: "treatment_plan \<Rightarrow> datetime \<Rightarrow> string \<Rightarrow> task" where
  "followup_task plan t key =
     \<lparr>task_id = 0, task_clinic = plan_clinic plan, task_patient = plan_patient plan,
      task_type = ''treatment_followup'',
      title = ''Follow up on treatment plan: '' @ plan_title plan,
      description = ''Treatment plan sent '' @ str_date (date_of t) @ '' with no response.'',
      priority = 3, task_status = ''pending'',
      source_type = ''treatment_plan'', source_id = Some (plan_id plan),
      idempotency_key = Some key\<rparr>"

fun treatment_loop :: "treatment_plan list \<Rightarrow> nat \<times> db \<Rightarrow> (py_error + nat) \<times> db" where
  "treatment_loop [] (tasks_created, d) = (Inr tasks_created, d)"
| "treatment_loop (plan # plans) (tasks_created, d) =
     (let idempotency_key = treatment_key plan
      in if task_exists d idempotency_key then treatment_loop plans (tasks_created, d)
         else (case sent_at plan of
                 None \<Rightarrow> (Inl AttributeError, d)
               | Some t \<Rightarrow>
                   (case task_create_title (followup_task plan t idempotency_key) d of
                      Inl e \<Rightarrow> (Inl e, d)
                    | Inr d' \<Rightarrow> treatment_loop plans (tasks_created + 1, d'))))"

definition generate_treatment_followup_tasks ::
    "datetime \<Rightarrow> db \<Rightarrow> (py_error + nat) \<times> db" where
  "generate_treatment_followup_tasks now d = treatment_loop (followup_plans now d) (0, d)"

text \<open>\<open>generate_recall_tasks\<close>. The key carries the month of the run.\<close>

definition recall_key :: "datetime \<Rightarrow> patient \<Rightarrow> string" where
  "recall_key now p = ''recall_'' @ show_nat (patient_id p) @ ''_'' @ strftime_Ym now"

definition full_name :: "patient \<Rightarrow> string" where
  "full_name p = first_name p @ '' '' @ last_name p"

definition recall_patients :: "datetime \<Rightarrow> db \<Rightarrow> patient list" where
  "recall_patients now d =
     (let cutoff = now - timedelta_days 180
      in order_by (\<lambda>p. (last_name p, first_name p))
           (\<lambda>p. tie_rank d Patients (patient_id p))
           (filter (\<lambda>p. clinic_active d (patient_clinic p) \<and>
                         (case last_appointment_date p of None \<Rightarrow> False
                          | Some dt \<Rightarrow> dt < date_of cutoff))
              (patients d)))"

definition recall_task :: "patient \<Rightarrow> string \<Rightarrow> task" where
  "recall_task p key =
     \<lparr>task_id = 0, task_clinic = patient_clinic p, task_patient = patient_id p,
      task_type = ''recall'',
      title = ''Recall: '' @ full_name p,
      description = ''Last visit: '' @
        (case last_appointment_date p of None \<Rightarrow> ''None'' | Some dt \<Rightarrow> str_date dt) @
        ''. Consider reaching out.'',
      priority = 4, task_status = ''pending'',
      source_type = [], source_id = None,
      idempotency_key = Some key\<rparr>"

fun recall_loop :: "datetime \<Rightarrow> patient list \<Rightarrow> nat \<times> db \<Rightarrow> nat \<times> db" where
  "recall_loop now [] (tasks_created, d) = (tasks_created, d)"
| "recall_loop now (p # ps) (tasks_created, d) =
     (let idempotency_key = recall_key now p
      in if task_exists d idempotency_key then recall_loop now ps (tasks_created, d)
         else recall_loop now ps
                (tasks_created + 1, task_create (recall_task p idempotency_key) d))"

definition generate_recall_tasks :: "datetime \<Rightarrow> db \<Rightarrow> nat \<times> db" where
  "generate_recall_tasks now d = recall_loop now (recall_patients now d) (0, d)"

section \<open>Attribution (core/services.py)\<close>

text \<open>
  The attributed source is a \<open>CallEvent\<close> or a \<open>MarketingTouch\<close>; a model instance is
  always truthy, so \<open>if not attributed_source\<close> tests for \<open>None\<close>.
\<close>

datatype source = CallSrc call_event | TouchSrc marketing_touch

text \<open>The local variables of \<open>create_attribution\<close> that the ranking rules assign.\<close>

record decision =
  attributed_source :: "source option"
  dec_attribution_type :: string
  dec_campaign_name :: string
  dec_campaign_source :: string
  dec_campaign_medium :: string
  evidence :: py_dict

text \<open>Candidate set A: the calls of the patient's phone in the lookback window, latest first.\<close>

definition candidate_calls :: "patient \<Rightarrow> datetime \<Rightarrow> datetime \<Rightarrow> db \<Rightarrow> call_event list" where
  "candidate_calls p lookback_date paid_at d =
     (if patient_phone p \<noteq> []
      then order_by (\<lambda>c. - call_timestamp c) (\<lambda>c. tie_rank d CallEvents (call_id c))
             (filter (\<lambda>c. call_clinic c = patient_clinic p \<and> caller_phone c = patient_phone p \<and>
                           lookback_date \<le> call_timestamp c \<and> call_timestamp c \<le> paid_at)
                (call_events d))
      else [])"

text \<open>Candidate set B: the touches of the patient's email in the window, latest first.\<close>

definition candidate_touches :: "patient \<Rightarrow> datetime \<Rightarrow> datetime \<Rightarrow> db \<Rightarrow> marketing_touch list" where
  "candidate_touches p lookback_date paid_at d =
     (if patient_email p \<noteq> []
      then order_by (\<lambda>t. - touch_timestamp t)
             (\<lambda>t. tie_rank d MarketingTouches (touch_id t))
             (filter (\<lambda>t. touch_clinic t = patient_clinic p \<and>
                           lookback_date \<le> touch_timestamp t \<and> touch_timestamp t \<le> paid_at \<and>
                           touch_email t = patient_email p)
                (marketing_touches d))
      else [])"

definition initial_evidence :: "datetime \<Rightarrow> invoice \<Rightarrow> datetime \<Rightarrow> datetime \<Rightarrow> py_dict" where
  "initial_evidence now invoice paid_at lookback_date =
     [(''invoice_id'', JInt (int (invoice_id invoice))),
      (''invoice_amount'', JStr (str_decimal (invoice_total_amount invoice))),
      (''paid_at'', JStr (isoformat paid_at)),
      (''lookback_start'', JStr (isoformat lookback_date)),
      (''evaluated_at'', JStr (isoformat now))]"

text \<open>\<open>evidence['call_events_found']\<close> is assigned inside \<open>if patient.phone\<close>.\<close>

definition count_calls :: "patient \<Rightarrow> call_event list \<Rightarrow> py_dict \<Rightarrow> py_dict" where
  "count_calls p calls ev =
     (if patient_phone p \<noteq> []
      then dict_set ''call_events_found'' (JInt (int (length calls))) ev
      else ev)"

definition count_touches :: "marketing_touch list \<Rightarrow> py_dict \<Rightarrow> py_dict" where
  "count_touches touches ev = dict_set ''marketing_touches_found'' (JInt (int (length touches))) ev"

definition paid_mediums :: "string list" where
  "paid_mediums = [''cpc'', ''ppc'', ''paid'']"

text \<open>The four ranking rules, in the order of the source; each loop stops at its first match.\<close>

definition paid_call_rule :: "call_event list \<Rightarrow> decision \<Rightarrow> decision" where
  "paid_call_rule calls dc =
     (case find (\<lambda>c. campaign_id c \<noteq> []) calls of
        None \<Rightarrow> dc
      | Some call \<Rightarrow>
          dc\<lparr>attributed_source := Some (CallSrc call),
             dec_attribution_type := ''call'',
             dec_campaign_name := str_or (call_campaign_name call) [],
             dec_campaign_source := ''phone'',
             dec_campaign_medium := ''call'',
             evidence := dict_set ''attribution_reason'' (JStr ''Matched paid campaign call'')
                           (evidence dc)\<rparr>)"

definition paid_touch_rule :: "marketing_touch list \<Rightarrow> decision \<Rightarrow> decision" where
  "paid_touch_rule touches dc =
     (if attributed_source dc = None
      then (case find (\<lambda>t. utm_medium t \<in> set paid_mediums) touches of
              None \<Rightarrow> dc
            | Some touch \<Rightarrow>
                dc\<lparr>attributed_source := Some (TouchSrc touch),
                   dec_attribution_type := ''marketing_touch'',
                   dec_campaign_name := str_or (utm_campaign touch) [],
                   dec_campaign_source := str_or (utm_source touch) [],
                   dec_campaign_medium := str_or (utm_medium touch) [],
                   evidence := dict_set ''attribution_reason''
                                 (JStr ''Matched paid marketing touch'') (evidence dc)\<rparr>)
      else dc)"

definition organic_call_rule :: "call_event list \<Rightarrow> decision \<Rightarrow> decision" where
  "organic_call_rule calls dc =
     (case calls of
        call # _ \<Rightarrow>
          if attributed_source dc = None
          then dc\<lparr>attributed_source := Some (CallSrc call),
                  dec_attribution_type := ''call'',
                  dec_campaign_source := ''organic'',
                  dec_campaign_medium := ''call'',
                  evidence := dict_set ''attribution_reason'' (JStr ''Matched organic call'')
                                (evidence dc)\<rparr>
          else dc
      | [] \<Rightarrow> dc)"

definition organic_touch_rule :: "marketing_touch list \<Rightarrow> decision \<Rightarrow> decision" where
  "organic_touch_rule touches dc =
     (case touches of
        touch # _ \<Rightarrow>
          if attributed_source dc = None
          then dc\<lparr>attributed_source := Some (TouchSrc touch),
                  dec_attribution_type := ''marketing_touch'',
                  dec_campaign_source := str_or (utm_source touch) ''organic'',
                  dec_campaign_medium := str_or (utm_medium touch) ''web'',
                  evidence := dict_set ''attribution_reason''
                                (JStr ''Matched organic marketing touch'') (evidence dc)\<rparr>
          else dc
      | [] \<Rightarrow> dc)"

text \<open>Lines 25 to 110 of the source: the evidence, the two candidate sets, the ranking.\<close>

definition decide :: "datetime \<Rightarrow> patient \<Rightarrow> invoice \<Rightarrow> datetime \<Rightarrow> db \<Rightarrow> decision" where
  "decide now p invoice paid_at d =
     (let lookback_date = paid_at - timedelta_days 30;
          ev0 = initial_evidence now invoice paid_at lookback_date;
          calls = candidate_calls p lookback_date paid_at d;
          ev1 = count_calls p calls ev0;
          touches = candidate_touches p lookback_date paid_at d;
          ev2 = count_touches touches ev1
      in organic_touch_rule touches
           (organic_call_rule calls
              (paid_touch_rule touches
                 (paid_call_rule calls
                    \<lparr>attributed_source = None, dec_attribution_type = ''unknown'',
                     dec_campaign_name = [], dec_campaign_source = [],
                     dec_campaign_medium = [], evidence = ev2\<rparr>))))"

text \<open>\<open>ContentType.objects.get_for_model(attributed_source)\<close> and \<open>attributed_source.pk\<close>.\<close>

fun source_ref :: "source option \<Rightarrow> content_type option \<times> nat option" where
  "source_ref None = (None, None)"
| "source_ref (Some (CallSrc c)) = (Some CallEventCT, Some (call_id c))"
| "source_ref (Some (TouchSrc t)) = (Some MarketingTouchCT, Some (touch_id t))"

text \<open>The \<open>defaults\<close> dictionary of the \<open>update_or_create\<close> call, applied to a row.\<close>

definition apply_defaults :: "patient \<Rightarrow> invoice \<Rightarrow> datetime \<Rightarrow> decision \<Rightarrow> attribution \<Rightarrow> attribution" where
  "apply_defaults p invoice paid_at dc a =
     a\<lparr>attr_clinic := patient_clinic p,
       attribution_type := dec_attribution_type dc,
       content_type := fst (source_ref (attributed_source dc)),
       object_id := snd (source_ref (attributed_source dc)),
       campaign_name := dec_campaign_name dc,
       campaign_source := dec_campaign_source dc,
       campaign_medium := dec_campaign_medium dc,
       evidence_json := evidence dc,
       first_invoice_amount := Some (invoice_total_amount invoice),
       first_invoice_date := Some (date_of paid_at)\<rparr>"

text \<open>A new \<open>Attribution\<close> row for a patient, every other column at the model's default.\<close>

definition new_attribution :: "nat \<Rightarrow> nat \<Rightarrow> attribution" where
  "new_attribution pk pid =
     \<lparr>attr_id = pk, attr_patient = pid, attr_clinic = 0, attribution_type = [],
      attr_status = ''auto'', content_type = None, object_id = None,
      campaign_name = [], campaign_source = [], campaign_medium = [],
      evidence_json = [], first_invoice_amount = None, first_invoice_date = None,
      overridden_by = None, override_reason = [], overridden_at = None\<rparr>"

text \<open>
  \<open>Attribution.objects.update_or_create(patient=patient, defaults=...)\<close>: the row of the
  patient is fetched; when there is none a row is inserted, when there is one the
  defaults are written to it and it is saved under its primary key, and more than one
  row raises.
\<close>

definition update_or_create ::
    "nat \<Rightarrow> (attribution \<Rightarrow> attribution) \<Rightarrow> db \<Rightarrow> py_error + attribution \<times> db" where
  "update_or_create pid defaults d =
     (case filter (\<lambda>a. attr_patient a = pid) (attributions d) of
        [] \<Rightarrow>
          (let a = defaults (new_attribution (next_pk (map attr_id (attributions d))) pid)
           in Inr (a, d\<lparr>attributions := attributions d @ [a]\<rparr>))
      | [old] \<Rightarrow>
          (let a = defaults old
           in Inr (a, d\<lparr>attributions :=
                           map (\<lambda>x. if attr_id x = attr_id a then a else x) (attributions d)\<rparr>))
      | _ \<Rightarrow> Inl MultipleObjectsReturned)"

text \<open>\<open>invoice.paid_at - timedelta(days=30)\<close> raises on a null \<open>paid_at\<close>.\<close>

definition create_attribution ::
    "datetime \<Rightarrow> patient \<Rightarrow> invoice \<Rightarrow> db \<Rightarrow> py_error + attribution \<times> db" where
  "create_attribution now p invoice d =
     (case invoice_paid_at invoice of
        None \<Rightarrow> Inl TypeError
      | Some paid_at \<Rightarrow>
          update_or_create (patient_id p)
            (apply_defaults p invoice paid_at (decide now p invoice paid_at d)) d)"

text \<open>
  An \<open>Attribution\<close> instance as Python holds it: the values of the columns, and the
  cache of the generic foreign key \<open>attributed_source\<close> (\<open>None\<close>: nothing cached).
  An instance that a query or \<open>update_or_create\<close> returned has nothing cached.
\<close>

record attribution_instance =
  inst_columns :: attribution
  gfk_cache :: "source option option"

definition loaded :: "attribution \<Rightarrow> attribution_instance" where
  "loaded a = \<lparr>inst_columns = a, gfk_cache = None\<rparr>"

text \<open>The row that \<open>content_type\<close> and \<open>object_id\<close> name, if there is one.\<close>

definition fetch_source :: "db \<Rightarrow> attribution \<Rightarrow> source option" where
  "fetch_source d a =
     (case (content_type a, object_id a) of
        (Some CallEventCT, Some k) \<Rightarrow>
          map_option CallSrc (find (\<lambda>c. call_id c = k) (call_events d))
      | (Some MarketingTouchCT, Some k) \<Rightarrow>
          map_option TouchSrc (find (\<lambda>t. touch_id t = k) (marketing_touches d))
      | _ \<Rightarrow> None)"

text \<open>
  \<open>attribution.attributed_source\<close>, that is \<open>GenericForeignKey.__get__\<close>: a cached
  \<open>None\<close> is returned as it is; a cached row is returned when the columns still name
  it; otherwise the row is fetched and cached. An assignment to \<open>content_type\<close> or
  \<open>object_id\<close> leaves the cache as it is.
\<close>

definition get_attributed_source ::
    "db \<Rightarrow> attribution_instance \<Rightarrow> source option \<times> attribution_instance" where
  "get_attributed_source d inst =
     (let fetched = fetch_source d (inst_columns inst);
          fetch = (fetched, inst\<lparr>gfk_cache := Some fetched\<rparr>)
      in case gfk_cache inst of
           None \<Rightarrow> fetch
         | Some None \<Rightarrow> (None, inst)
         | Some (Some obj) \<Rightarrow>
             if source_ref (Some obj) =
                  (content_type (inst_columns inst), object_id (inst_columns inst))
             then (Some obj, inst)
             else fetch)"

text \<open>\<open>CallEvent.__str__\<close> and \<open>MarketingTouch.__str__\<close>.\<close>

fun str_source :: "source \<Rightarrow> string" where
  "str_source (CallSrc c) = ''Call '' @ call_sid c @ '' from '' @ caller_phone c"
| "str_source (TouchSrc t) =
     ''Touch: '' @ utm_source t @ ''/'' @ utm_medium t @ '' at '' @ str_datetime (touch_timestamp t)"

definition previous_attribution :: "attribution \<Rightarrow> source option \<Rightarrow> json" where
  "previous_attribution a src =
     JObj [(''type'', JStr (attribution_type a)),
           (''source'', (case src of None \<Rightarrow> JNull | Some s \<Rightarrow> JStr (str_source s))),
           (''campaign'', JStr (campaign_name a))]"

text \<open>\<open>if new_source:\<close> and \<open>hasattr(new_source, 'campaign_name')\<close>: only a call has one.\<close>

fun set_new_source :: "source option \<Rightarrow> attribution \<Rightarrow> attribution" where
  "set_new_source None a = a"
| "set_new_source (Some (CallSrc c)) a =
     a\<lparr>content_type := Some CallEventCT, object_id := Some (call_id c),
       campaign_name := str_or (call_campaign_name c) []\<rparr>"
| "set_new_source (Some (TouchSrc t)) a =
     a\<lparr>content_type := Some MarketingTouchCT, object_id := Some (touch_id t)\<rparr>"

text \<open>\<open>attribution.save()\<close>: the row of that primary key is updated, or inserted.\<close>

definition attribution_save :: "attribution \<Rightarrow> db \<Rightarrow> db" where
  "attribution_save a d =
     (if list_ex (\<lambda>x. attr_id x = attr_id a) (attributions d)
      then d\<lparr>attributions := map (\<lambda>x. if attr_id x = attr_id a then a else x) (attributions d)\<rparr>
      else d\<lparr>attributions := attributions d @ [a]\<rparr>)"

text \<open>
  \<open>override_attribution\<close>, on the instance it is given: the source of the previous
  attribution is read through the generic foreign key, the columns are assigned and
  the instance is saved and returned.
\<close>

definition override_attribution ::
    "datetime \<Rightarrow> attribution_instance \<Rightarrow> nat \<Rightarrow> source option \<Rightarrow> string \<Rightarrow> db \<Rightarrow>
       attribution_instance \<times> db" where
  "override_attribution now attribution user new_source reason d =
     (case get_attributed_source d attribution of
        (src, inst) \<Rightarrow>
          (let a = inst_columns inst;
               old_evidence = dict_set ''previous_attribution'' (previous_attribution a src)
                                (evidence_json a);
               a' = (set_new_source new_source a)
                      \<lparr>attr_status := ''manual'', overridden_by := Some user,
                       override_reason := reason, overridden_at := Some now,
                       evidence_json := old_evidence\<rparr>
           in (inst\<lparr>inst_columns := a'\<rparr>, attribution_save a' d)))"

text \<open>A sequence of overrides, each applied to the instance the one before returned.\<close>

fun override_all ::
    "attribution_instance \<Rightarrow> (datetime \<times> nat \<times> source option \<times> string) list \<Rightarrow> db \<Rightarrow>
       attribution_instance \<times> db" where
  "override_all inst [] d = (inst, d)"
| "override_all inst ((now, user, new_source, reason) # rest) d =
     (case override_attribution now inst user new_source reason d of
        (inst', d') \<Rightarrow> override_all inst' rest d')"

section \<open>The audit log (core/models.py)\<close>

record audit_log =
  audit_pk :: "nat option"
  audit_user :: "nat option"
  audit_clinic :: nat
  audit_action :: string
  audit_content_type :: string
  audit_object_id :: nat
  object_repr :: string
  changes_json :: py_dict
  ip_address :: "string option"
  user_agent :: string
  audit_timestamp :: datetime

text \<open>
  \<open>AuditLog.save\<close> and \<open>AuditLog.delete\<close>, on the table of audit rows. \<open>if self.pk\<close> is
  false for \<open>None\<close> and for 0. \<open>super().save()\<close> inserts an instance without a primary
  key under the next key, and writes one with the key 0 under that key. The result is
  the outcome of the call and the table after it.
\<close>

definition model_save :: "audit_log \<Rightarrow> audit_log list \<Rightarrow> audit_log list" where
  "model_save self tbl =
     (case audit_pk self of
        None \<Rightarrow> tbl @ [self\<lparr>audit_pk := Some (next_pk (List.map_filter audit_pk tbl))\<rparr>]
      | Some k \<Rightarrow>
          if list_ex (\<lambda>r. audit_pk r = Some k) tbl
          then map (\<lambda>r. if audit_pk r = Some k then self else r) tbl
          else tbl @ [self])"

definition audit_save :: "audit_log \<Rightarrow> audit_log list \<Rightarrow> (py_error + unit) \<times> audit_log list" where
  "audit_save self tbl =
     (if audit_pk self \<noteq> None \<and> audit_pk self \<noteq> Some 0
      then (Inl (ValueError ''AuditLog entries cannot be modified''), tbl)
      else (Inr (), model_save self tbl))"

definition audit_delete :: "audit_log \<Rightarrow> audit_log list \<Rightarrow> (py_error + unit) \<times> audit_log list" where
  "audit_delete self tbl = (Inl (ValueError ''AuditLog entries cannot be deleted''), tbl)"

text \<open>
  The columns \<open>clinic\<close> and \<open>content_type\<close> of an audit row are foreign keys declared
  with \<open>on_delete=CASCADE\<close>: deleting a clinic deletes its audit rows in bulk, without
  a call of \<open>AuditLog.delete\<close>.
\<close>

definition clinic_delete_cascade :: "nat \<Rightarrow> audit_log list \<Rightarrow> audit_log list" where
  "clinic_delete_cascade cid tbl = filter (\<lambda>r. audit_clinic r \<noteq> cid) tbl"

text \<open>
  A sequence of calls of the two instance methods, each on the table that the call
  before it left; an exception that a call raises is caught by the caller.
\<close>

datatype audit_call = SaveCall audit_log | DeleteCall audit_log

fun call_instance :: "audit_call \<Rightarrow> audit_log" where
  "call_instance (SaveCall self) = self"
| "call_instance (DeleteCall self) = self"

fun audit_calls :: "audit_call list \<Rightarrow> audit_log list \<Rightarrow> audit_log list" where
  "audit_calls [] tbl = tbl"
| "audit_calls (SaveCall self # calls) tbl = audit_calls calls (snd (audit_save self tbl))"
| "audit_calls (DeleteCall self # calls) tbl = audit_calls calls (snd (audit_delete self tbl))"

section \<open>Notions used by the statements\<close>

text \<open>The idempotency keys held by a table of tasks, null keys left out.\<close>

definition task_keys :: "task list \<Rightarrow> string list" where
  "task_keys ts = List.map_filter idempotency_key ts"

text \<open>A call row with its completion marker set.\<close>

definition freeze :: "call_event \<Rightarrow> call_event" where
  "freeze c = c\<lparr>is_processed := True\<rparr>"

text \<open>
  A missed call is settled in a database when the callback loop would pass it over:
  its key is taken, or no patient of the clinic has its caller phone.
\<close>

definition settled :: "db \<Rightarrow> clinic \<Rightarrow> call_event \<Rightarrow> bool" where
  "settled d cl c \<longleftrightarrow>
     task_exists d (callback_key c) \<or> patient_by_phone d cl (caller_phone c) = None"

text \<open>
  What a run of the callback generator may do to a database: clinics, patients and
  the order of tied rows stay, task keys are only added, and a call row is left alone
  or marked processed.
\<close>

definition grows :: "db \<Rightarrow> db \<Rightarrow> bool" where
  "grows d d' \<longleftrightarrow>
     clinics d' = clinics d \<and> patients d' = patients d \<and> tie_rank d' = tie_rank d \<and>
     (\<forall>k. task_exists d k \<longrightarrow> task_exists d' k) \<and>
     list_all2 (\<lambda>c c'. c' = c \<or> c' = freeze c) (call_events d) (call_events d')"

text \<open>
  What holds of the database \<open>d\<close> during a run of the callback generator that started
  on \<open>d0\<close>: the tasks of \<open>d0\<close> are followed by new callback tasks of priority 2, each
  for a call of \<open>d0\<close> whose row is now marked processed; and a call row that differs
  from the rows of \<open>d0\<close> has a task under its key.
\<close>

definition callback_inv :: "db \<Rightarrow> db \<Rightarrow> bool" where
  "callback_inv d0 d \<longleftrightarrow>
     grows d0 d \<and>
     (\<exists>new. tasks d = tasks d0 @ new \<and>
        (\<forall>t\<in>set new. task_type t = ''callback'' \<and> priority t = 2 \<and>
           (\<exists>call\<in>set (call_events d0).
              idempotency_key t = Some (callback_key call) \<and>
              source_id t = Some (call_id call) \<and>
              freeze call \<in> set (call_events d)))) \<and>
     (\<forall>c\<in>set (call_events d). c \<in> set (call_events d0) \<or> task_exists d (callback_key c))"

section \<open>Sample data\<close>

text \<open>
  One clinic and one patient; an invoice paid on 2024-03-10; a call of a paid campaign
  on 2024-03-05; a short unanswered call on 2024-03-08; an organic touch on 2024-03-01
  and a paid one on 2024-03-02. The generators run on 2024-03-08 at noon.
\<close>

definition ex_clinic :: clinic where
  "ex_clinic = \<lparr>clinic_id = 1, clinic_name = ''Test Clinic'', clinic_is_active = True\<rparr>"

definition ex_patient :: patient where
  "ex_patient =
     \<lparr>patient_id = 1, patient_clinic = 1, first_name = ''John'', last_name = ''Doe'',
      patient_email = ''john@example.com'', patient_phone = ''+1234567890'',
      sms_consent = False, email_consent = True, last_appointment_date = Some 19000\<rparr>"

definition ex_anonymous :: patient where
  "ex_anonymous = ex_patient\<lparr>patient_id := 2, patient_email := [], patient_phone := []\<rparr>"

definition ex_invoice :: invoice where
  "ex_invoice =
     \<lparr>invoice_id = 1, invoice_total_amount = 50000,
      invoice_paid_at = Some 1710028800000000\<rparr>"

definition ex_paid_call :: call_event where
  "ex_paid_call =
     \<lparr>call_id = 1, call_clinic = 1, call_sid = ''CA1'', caller_phone = ''+1234567890'',
      duration_seconds = 120, call_timestamp = 1709596800000000, campaign_id = ''C1'',
      call_campaign_name = ''Google Ads'', is_processed = True,
      resulted_in_appointment = True\<rparr>"

definition ex_missed_call :: call_event where
  "ex_missed_call =
     \<lparr>call_id = 2, call_clinic = 1, call_sid = ''CA2'', caller_phone = ''+1234567890'',
      duration_seconds = 15, call_timestamp = 1709856000000000, campaign_id = [],
      call_campaign_name = [], is_processed = False, resulted_in_appointment = False\<rparr>"

definition ex_organic_touch :: marketing_touch where
  "ex_organic_touch =
     \<lparr>touch_id = 1, touch_clinic = 1, touch_email = ''john@example.com'',
      utm_source = ''newsletter'', utm_medium = ''organic'', utm_campaign = [],
      touch_timestamp = 1709251200000000\<rparr>"

definition ex_paid_touch :: marketing_touch where
  "ex_paid_touch =
     \<lparr>touch_id = 2, touch_clinic = 1, touch_email = ''john@example.com'',
      utm_source = ''google'', utm_medium = ''cpc'', utm_campaign = ''Spring'',
      touch_timestamp = 1709337600000000\<rparr>"

definition ex_appointment :: appointment where
  "ex_appointment =
     \<lparr>appt_id = 1, appt_clinic = 1, appt_patient = 1, appt_cliniko_id = ''appt123'',
      appt_scheduled_at = 1709812800000000, appt_status = ''completed''\<rparr>"

definition ex_plan :: treatment_plan where
  "ex_plan =
     \<lparr>plan_id = 1, plan_clinic = 1, plan_patient = 1, plan_title = ''Crown'',
      plan_status = ''sent'', sent_at = Some 1709294400000000,
      plan_created_at = 1709290800000000\<rparr>"

definition ex_now :: datetime where
  "ex_now = 1709899200000000"

definition ex_db :: db where
  "ex_db =
     \<lparr>clinics = [ex_clinic], patients = [ex_patient],
      appointments = [ex_appointment],
      call_events = [ex_paid_call, ex_missed_call],
      marketing_touches = [ex_organic_touch, ex_paid_touch],
      treatment_plans = [ex_plan], tasks = [], review_requests = [], attributions = [],
      tie_rank = (\<lambda>t k. k)\<rparr>"

text \<open>The same database without the call of the paid campaign.\<close>

definition ex_db_organic :: db where
  "ex_db_organic = ex_db\<lparr>call_events := [ex_missed_call]\<rparr>"

text \<open>
  An attribution to an organic call, and two overrides of it: the first names the call
  of the paid campaign as the source, the second only gives a reason.
\<close>

definition ex_attribution :: attribution where
  "ex_attribution =
     \<lparr>attr_id = 1, attr_patient = 1, attr_clinic = 1, attribution_type = ''call'',
      attr_status = ''auto'', content_type = Some CallEventCT, object_id = Some 2,
      campaign_name = [], campaign_source = ''organic'', campaign_medium = ''call'',
      evidence_json = [(''attribution_reason'', JStr ''Matched organic call'')],
      first_invoice_amount = Some 50000, first_invoice_date = Some 19792,
      overridden_by = None, override_reason = [], overridden_at = None\<rparr>"

definition ex_db_attributed :: db where
  "ex_db_attributed = ex_db\<lparr>attributions := [ex_attribution]\<rparr>"

definition ex_override1 :: "datetime \<times> nat \<times> source option \<times> string" where
  "ex_override1 = (1710115200000000, 7, Some (CallSrc ex_paid_call), ''patient named the ad'')"

definition ex_override2 :: "datetime \<times> nat \<times> source option \<times> string" where
  "ex_override2 = (1710201600000000, 7, None, ''confirmed by phone'')"

text \<open>
  An attribution without a source, and an override of it that names the paid touch.
\<close>

definition ex_unsourced :: attribution where
  "ex_unsourced =
     ex_attribution\<lparr>attribution_type := ''unknown'', content_type := None, object_id := None,
                    campaign_source := [], campaign_medium := [], evidence_json := []\<rparr>"

definition ex_override_touch :: "datetime \<times> nat \<times> source option \<times> string" where
  "ex_override_touch =
     (1710115200000000, 7, Some (TouchSrc ex_paid_touch), ''patient named the ad'')"

definition ex_audit_row :: audit_log where
  "ex_audit_row =
     \<lparr>audit_pk = Some 1, audit_user = Some 7, audit_clinic = 1, audit_action = ''read'',
      audit_content_type = ''patient'', audit_object_id = 1, object_repr = ''John Doe'',
      changes_json = [], ip_address = None, user_agent = [],
      audit_timestamp = 1709899200000000\<rparr>"

lemmas ex_defs =
  ex_clinic_def ex_patient_def ex_anonymous_def ex_invoice_def ex_paid_call_def
  ex_missed_call_def ex_organic_touch_def ex_paid_touch_def ex_appointment_def ex_plan_def
  ex_now_def ex_db_def ex_db_organic_def ex_attribution_def ex_db_attributed_def
  ex_override1_def ex_override2_def ex_audit_row_def ex_unsourced_def ex_override_touch_def

section \<open>Ordered queries\<close>

lemma set_order_by [simp]: "set (order_by key rank rows) = set rows"
  by (simp add: order_by_def)

lemma order_by_Nil [simp]: "order_by key rank [] = []"
  by (simp add: order_by_def)

text \<open>The first row of an ordered result that has a property is least in the key.\<close>

lemma find_order_by:
  assumes "find P (order_by key rank rows) = Some x"
  shows "x \<in> set rows" and "P x" and "\<forall>y\<in>set rows. P y \<longrightarrow> key x \<le> key y"
proof -
  let ?ys = "order_by key rank rows"
  from assms obtain i where i: "i < length ?ys" "P (?ys ! i)" "x = ?ys ! i"
    "\<forall>j<i. \<not> P (?ys ! j)"
    unfolding find_Some_iff by blast
  from i(1,3) have "x \<in> set ?ys" by (metis nth_mem)
  then show "x \<in> set rows" by simp
  from i(2,3) show "P x" by simp
  have srt: "sorted (map (\<lambda>r. (key r, rank r)) ?ys)"
    by (simp add: order_by_def)
  show "\<forall>y\<in>set rows. P y \<longrightarrow> key x \<le> key y"
  proof (intro ballI impI)
    fix y assume "y \<in> set rows" "P y"
    then have "y \<in> set ?ys" by simp
    then obtain j where j: "j < length ?ys" "y = ?ys ! j"
      by (metis in_set_conv_nth)
    with i(4) \<open>P y\<close> have "i \<le> j" by (metis not_le_imp_less)
    with srt j(1) have "map (\<lambda>r. (key r, rank r)) ?ys ! i \<le> map (\<lambda>r. (key r, rank r)) ?ys ! j"
      by (intro sorted_nth_mono) simp_all
    with i(1,3) j have "(key x, rank x) \<le> (key y, rank y)" by simp
    then show "key x \<le> key y" by (auto simp: less_eq_prod_def)
  qed
qed

section \<open>Properties of the attribution ranker\<close>

lemma update_or_create_ok:
  assumes "length (filter (\<lambda>a. attr_patient a = pid) (attributions d)) \<le> 1"
  shows "\<exists>a0 d'. update_or_create pid f d = Inr (f a0, d') \<and> attr_patient a0 = pid \<and>
           (filter (\<lambda>a. attr_patient a = pid) (attributions d) = [] \<and>
              a0 = new_attribution (next_pk (map attr_id (attributions d))) pid \<and>
              d' = d\<lparr>attributions := attributions d @ [f a0]\<rparr>
            \<or> filter (\<lambda>a. attr_patient a = pid) (attributions d) = [a0] \<and>
              d' = d\<lparr>attributions :=
                       map (\<lambda>x. if attr_id x = attr_id (f a0) then f a0 else x) (attributions d)\<rparr>)"
proof (cases "filter (\<lambda>a. attr_patient a = pid) (attributions d)")
  case Nil
  then show ?thesis by (simp add: update_or_create_def Let_def new_attribution_def)
next
  case (Cons a0 rest)
  with assms have r: "rest = []" by simp
  have "a0 \<in> set (filter (\<lambda>a. attr_patient a = pid) (attributions d))" using Cons by simp
  then have "attr_patient a0 = pid" by simp
  then show ?thesis using Cons r by (simp add: update_or_create_def Let_def)
qed

lemma paid_touch_rule_skip:
  "attributed_source dc \<noteq> None \<Longrightarrow> paid_touch_rule touches dc = dc"
  by (auto simp: paid_touch_rule_def)

lemma organic_call_rule_skip:
  "attributed_source dc \<noteq> None \<Longrightarrow> organic_call_rule calls dc = dc"
  by (auto simp: organic_call_rule_def split: list.splits)

lemma organic_touch_rule_skip:
  "attributed_source dc \<noteq> None \<Longrightarrow> organic_touch_rule touches dc = dc"
  by (auto simp: organic_touch_rule_def split: list.splits)

lemma paid_call_rule_miss:
  "find (\<lambda>c. campaign_id c \<noteq> []) calls = None \<Longrightarrow> paid_call_rule calls dc = dc"
  by (simp add: paid_call_rule_def)

lemma decide_paid_call:
  assumes "find (\<lambda>c. campaign_id c \<noteq> [])
             (candidate_calls p (paid_at - timedelta_days 30) paid_at d) = Some call"
  shows "dec_attribution_type (decide now p invoice paid_at d) = ''call''"
    and "dec_campaign_source (decide now p invoice paid_at d) = ''phone''"
    and "dec_campaign_medium (decide now p invoice paid_at d) = ''call''"
    and "attributed_source (decide now p invoice paid_at d) = Some (CallSrc call)"
  using assms
  by (simp_all add: decide_def Let_def paid_touch_rule_skip organic_call_rule_skip
      organic_touch_rule_skip paid_call_rule_def)

lemma decide_paid_touch:
  assumes "find (\<lambda>c. campaign_id c \<noteq> [])
             (candidate_calls p (paid_at - timedelta_days 30) paid_at d) = None"
    and "find (\<lambda>t. utm_medium t \<in> set paid_mediums)
             (candidate_touches p (paid_at - timedelta_days 30) paid_at d) = Some touch"
  shows "dec_attribution_type (decide now p invoice paid_at d) = ''marketing_touch''"
    and "dec_campaign_source (decide now p invoice paid_at d) = utm_source touch"
    and "dec_campaign_medium (decide now p invoice paid_at d) = utm_medium touch"
    and "attributed_source (decide now p invoice paid_at d) = Some (TouchSrc touch)"
  using assms
  by (simp_all add: decide_def Let_def paid_call_rule_miss organic_call_rule_skip
      organic_touch_rule_skip paid_touch_rule_def str_or_def)

lemma create_attribution_ok:
  assumes "invoice_paid_at invoice = Some paid_at"
    and "length (filter (\<lambda>a. attr_patient a = patient_id p) (attributions d)) \<le> 1"
  shows "\<exists>a0 d'. create_attribution now p invoice d =
            Inr (apply_defaults p invoice paid_at (decide now p invoice paid_at d) a0, d')"
  using update_or_create_ok[OF assms(2)] assms(1)
  by (fastforce simp: create_attribution_def)

text \<open>
  Claim C2. For a patient and a paid invoice, when candidate set A (the calls of the
  patient's phone in the 30-day lookback window) holds a call with a non-empty
  \<open>campaign_id\<close>, \<open>create_attribution\<close> returns an attribution of type \<open>call\<close> with
  campaign source \<open>phone\<close> and campaign medium \<open>call\<close>, whatever marketing touches the
  database holds. The patient has at most one attribution row, as the one-to-one
  column guarantees.
\<close>

theorem create_attribution_paid_call:
  assumes "invoice_paid_at invoice = Some paid_at"
    and "length (filter (\<lambda>a. attr_patient a = patient_id p) (attributions d)) \<le> 1"
    and "c \<in> set (candidate_calls p (paid_at - timedelta_days 30) paid_at d)"
    and "campaign_id c \<noteq> []"
  shows "\<exists>a d'. create_attribution now p invoice d = Inr (a, d') \<and>
           attribution_type a = ''call'' \<and> campaign_source a = ''phone'' \<and>
           campaign_medium a = ''call'' \<and> content_type a = Some CallEventCT"
proof -
  from assms(3,4) obtain call where
    f: "find (\<lambda>c. campaign_id c \<noteq> [])
          (candidate_calls p (paid_at - timedelta_days 30) paid_at d) = Some call"
    by (cases "find (\<lambda>c. campaign_id c \<noteq> [])
                 (candidate_calls p (paid_at - timedelta_days 30) paid_at d)")
       (auto simp: find_None_iff)
  from create_attribution_ok[OF assms(1,2)] obtain a0 d' where
    "create_attribution now p invoice d =
       Inr (apply_defaults p invoice paid_at (decide now p invoice paid_at d) a0, d')"
    by blast
  then show ?thesis
    by (simp add: apply_defaults_def decide_paid_call[OF f])
qed

theorem create_attribution_paid_call_witness:
  "invoice_paid_at ex_invoice = Some 1710028800000000 \<and>
   length (filter (\<lambda>a. attr_patient a = patient_id ex_patient) (attributions ex_db)) \<le> 1 \<and>
   ex_paid_call \<in> set (candidate_calls ex_patient (1710028800000000 - timedelta_days 30)
                          1710028800000000 ex_db) \<and>
   campaign_id ex_paid_call \<noteq> [] \<and>
   (\<exists>a d'. create_attribution ex_now ex_patient ex_invoice ex_db = Inr (a, d') \<and>
      attribution_type a = ''call'' \<and> campaign_source a = ''phone'' \<and>
      campaign_medium a = ''call'' \<and> content_type a = Some CallEventCT)"
proof -
  have h1: "invoice_paid_at ex_invoice = Some 1710028800000000"
    by (simp add: ex_invoice_def)
  have h2: "length (filter (\<lambda>a. attr_patient a = patient_id ex_patient) (attributions ex_db)) \<le> 1"
    by (simp add: ex_db_def)
  have h3: "ex_paid_call \<in> set (candidate_calls ex_patient (1710028800000000 - timedelta_days 30)
                                   1710028800000000 ex_db)"
    by code_simp
  have h4: "campaign_id ex_paid_call \<noteq> []"
    by (simp add: ex_paid_call_def)
  from create_attribution_paid_call[OF h1 h2 h3 h4, of ex_now] h1 h2 h3 h4
  show ?thesis by blast
qed

text \<open>
  Claim C3. For a patient and a paid invoice: when no call of the patient's clinic
  and phone in the 30-day lookback window has a non-empty \<open>campaign_id\<close>, and some
  marketing touch of the patient's clinic and email in the window has \<open>utm_medium\<close>
  \<open>cpc\<close>, \<open>ppc\<close> or \<open>paid\<close>, \<open>create_attribution\<close> selects such a touch, one that no
  other such touch is later than (the only one, when there is only one): the
  attribution has type \<open>marketing_touch\<close>, refers to that touch and carries its UTM
  source, medium and campaign, whatever organic calls the window holds.
\<close>

theorem create_attribution_paid_touch:
  assumes "invoice_paid_at invoice = Some paid_at"
    and "length (filter (\<lambda>a. attr_patient a = patient_id p) (attributions d)) \<le> 1"
    and "\<forall>c\<in>set (call_events d).
           patient_phone p \<noteq> [] \<and> call_clinic c = patient_clinic p \<and>
           caller_phone c = patient_phone p \<and>
           paid_at - timedelta_days 30 \<le> call_timestamp c \<and> call_timestamp c \<le> paid_at
           \<longrightarrow> campaign_id c = []"
    and "t \<in> set (marketing_touches d)" and "patient_email p \<noteq> []"
    and "touch_clinic t = patient_clinic p" and "touch_email t = patient_email p"
    and "paid_at - timedelta_days 30 \<le> touch_timestamp t" and "touch_timestamp t \<le> paid_at"
    and "utm_medium t \<in> {''cpc'', ''ppc'', ''paid''}"
  shows "\<exists>a d' touch. create_attribution now p invoice d = Inr (a, d') \<and>
           touch \<in> set (marketing_touches d) \<and>
           touch_clinic touch = patient_clinic p \<and> touch_email touch = patient_email p \<and>
           paid_at - timedelta_days 30 \<le> touch_timestamp touch \<and>
           touch_timestamp touch \<le> paid_at \<and>
           utm_medium touch \<in> {''cpc'', ''ppc'', ''paid''} \<and>
           (\<forall>t'\<in>set (marketing_touches d).
               touch_clinic t' = patient_clinic p \<and> touch_email t' = patient_email p \<and>
               paid_at - timedelta_days 30 \<le> touch_timestamp t' \<and>
               touch_timestamp t' \<le> paid_at \<and>
               utm_medium t' \<in> {''cpc'', ''ppc'', ''paid''}
               \<longrightarrow> touch_timestamp t' \<le> touch_timestamp touch) \<and>
           attribution_type a = ''marketing_touch'' \<and>
           content_type a = Some MarketingTouchCT \<and> object_id a = Some (touch_id touch) \<and>
           campaign_name a = utm_campaign touch \<and>
           campaign_source a = utm_source touch \<and> campaign_medium a = utm_medium touch"
proof -
  let ?l = "paid_at - timedelta_days 30"
  have pm: "set paid_mediums = {''cpc'', ''ppc'', ''paid''}"
    by (simp add: paid_mediums_def)
  have B: "set (candidate_touches p ?l paid_at d) =
      {t' \<in> set (marketing_touches d). touch_clinic t' = patient_clinic p \<and>
         ?l \<le> touch_timestamp t' \<and> touch_timestamp t' \<le> paid_at \<and>
         touch_email t' = patient_email p}"
    using assms(5) by (auto simp: candidate_touches_def)
  have "\<forall>c \<in> set (candidate_calls p ?l paid_at d). campaign_id c = []"
    using assms(3) by (auto simp: candidate_calls_def)
  then have n: "find (\<lambda>c. campaign_id c \<noteq> []) (candidate_calls p ?l paid_at d) = None"
    by (simp add: find_None_iff)
  have "t \<in> set (candidate_touches p ?l paid_at d)"
    unfolding B using assms(4,6-9) by simp
  with assms(10) obtain touch where
    f: "find (\<lambda>t. utm_medium t \<in> set paid_mediums) (candidate_touches p ?l paid_at d) = Some touch"
    unfolding pm
    by (cases "find (\<lambda>t. utm_medium t \<in> {''cpc'', ''ppc'', ''paid''})
                 (candidate_touches p ?l paid_at d)")
       (auto simp: find_None_iff)
  have ord: "candidate_touches p ?l paid_at d =
      order_by (\<lambda>t. - touch_timestamp t) (\<lambda>t. tie_rank d MarketingTouches (touch_id t))
        (filter (\<lambda>t. touch_clinic t = patient_clinic p \<and>
                      ?l \<le> touch_timestamp t \<and> touch_timestamp t \<le> paid_at \<and>
                      touch_email t = patient_email p) (marketing_touches d))"
    using assms(5) by (simp add: candidate_touches_def)
  note fo = find_order_by[OF f[unfolded ord]]
  have mem: "touch \<in> set (marketing_touches d)" "touch_clinic touch = patient_clinic p"
    "touch_email touch = patient_email p" "?l \<le> touch_timestamp touch"
    "touch_timestamp touch \<le> paid_at"
    using fo(1) by simp_all
  have paid: "utm_medium touch \<in> {''cpc'', ''ppc'', ''paid''}"
    using fo(2) unfolding pm .
  have latest: "\<forall>t'\<in>set (marketing_touches d).
               touch_clinic t' = patient_clinic p \<and> touch_email t' = patient_email p \<and>
               ?l \<le> touch_timestamp t' \<and> touch_timestamp t' \<le> paid_at \<and>
               utm_medium t' \<in> {''cpc'', ''ppc'', ''paid''}
               \<longrightarrow> touch_timestamp t' \<le> touch_timestamp touch"
    using fo(3) unfolding pm by auto
  from create_attribution_ok[OF assms(1,2)] obtain a0 d' where
    r: "create_attribution now p invoice d =
       Inr (apply_defaults p invoice paid_at (decide now p invoice paid_at d) a0, d')"
    by blast
  let ?a = "apply_defaults p invoice paid_at (decide now p invoice paid_at d) a0"
  have name: "dec_campaign_name (decide now p invoice paid_at d) = utm_campaign touch"
    using n f
    by (simp add: decide_def Let_def paid_call_rule_miss organic_call_rule_skip
        organic_touch_rule_skip paid_touch_rule_def str_or_def)
  have fields: "attribution_type ?a = ''marketing_touch''"
    "content_type ?a = Some MarketingTouchCT" "object_id ?a = Some (touch_id touch)"
    "campaign_name ?a = utm_campaign touch"
    "campaign_source ?a = utm_source touch" "campaign_medium ?a = utm_medium touch"
    by (simp_all add: apply_defaults_def decide_paid_touch[OF n f] name)
  show ?thesis
    using r mem paid latest fields
    by (intro exI[of _ ?a] exI[of _ d'] exI[of _ touch] conjI)
qed

theorem create_attribution_paid_touch_witness:
  "invoice_paid_at ex_invoice = Some 1710028800000000 \<and>
   length (filter (\<lambda>a. attr_patient a = patient_id ex_patient) (attributions ex_db_organic)) \<le> 1 \<and>
   call_events ex_db_organic = [ex_missed_call] \<and> campaign_id ex_missed_call = [] \<and>
   candidate_calls ex_patient (1710028800000000 - timedelta_days 30)
     1710028800000000 ex_db_organic = [ex_missed_call] \<and>
   ex_paid_touch \<in> set (marketing_touches ex_db_organic) \<and>
   patient_email ex_patient \<noteq> [] \<and>
   touch_clinic ex_paid_touch = patient_clinic ex_patient \<and>
   touch_email ex_paid_touch = patient_email ex_patient \<and>
   1710028800000000 - timedelta_days 30 \<le> touch_timestamp ex_paid_touch \<and>
   touch_timestamp ex_paid_touch \<le> 1710028800000000 \<and>
   utm_medium ex_paid_touch \<in> {''cpc'', ''ppc'', ''paid''} \<and>
   (\<exists>a d' touch. create_attribution ex_now ex_patient ex_invoice ex_db_organic = Inr (a, d') \<and>
      touch \<in> set (marketing_touches ex_db_organic) \<and>
      touch_clinic touch = patient_clinic ex_patient \<and>
      touch_email touch = patient_email ex_patient \<and>
      1710028800000000 - timedelta_days 30 \<le> touch_timestamp touch \<and>
      touch_timestamp touch \<le> 1710028800000000 \<and>
      utm_medium touch \<in> {''cpc'', ''ppc'', ''paid''} \<and>
      (\<forall>t'\<in>set (marketing_touches ex_db_organic).
          touch_clinic t' = patient_clinic ex_patient \<and>
          touch_email t' = patient_email ex_patient \<and>
          1710028800000000 - timedelta_days 30 \<le> touch_timestamp t' \<and>
          touch_timestamp t' \<le> 1710028800000000 \<and>
          utm_medium t' \<in> {''cpc'', ''ppc'', ''paid''}
          \<longrightarrow> touch_timestamp t' \<le> touch_timestamp touch) \<and>
      attribution_type a = ''marketing_touch'' \<and>
      content_type a = Some MarketingTouchCT \<and> object_id a = Some (touch_id touch) \<and>
      campaign_name a = utm_campaign touch \<and>
      campaign_source a = utm_source touch \<and> campaign_medium a = utm_medium touch)"
proof -
  have h1: "invoice_paid_at ex_invoice = Some 1710028800000000"
    by (simp add: ex_invoice_def)
  have h2: "length (filter (\<lambda>a. attr_patient a = patient_id ex_patient)
                      (attributions ex_db_organic)) \<le> 1"
    by (simp add: ex_db_organic_def ex_db_def)
  have a: "call_events ex_db_organic = [ex_missed_call]"
    by (simp add: ex_db_organic_def)
  have b: "campaign_id ex_missed_call = []"
    by (simp add: ex_missed_call_def)
  have c: "candidate_calls ex_patient (1710028800000000 - timedelta_days 30)
             1710028800000000 ex_db_organic = [ex_missed_call]"
    by code_simp
  have h3: "\<forall>c\<in>set (call_events ex_db_organic).
           patient_phone ex_patient \<noteq> [] \<and> call_clinic c = patient_clinic ex_patient \<and>
           caller_phone c = patient_phone ex_patient \<and>
           1710028800000000 - timedelta_days 30 \<le> call_timestamp c \<and>
           call_timestamp c \<le> 1710028800000000
           \<longrightarrow> campaign_id c = []"
    by (simp add: a b)
  have h4: "ex_paid_touch \<in> set (marketing_touches ex_db_organic)"
    by (simp add: ex_db_organic_def ex_db_def)
  have h5: "patient_email ex_patient \<noteq> []"
    by (simp add: ex_patient_def)
  have h6: "touch_clinic ex_paid_touch = patient_clinic ex_patient"
    "touch_email ex_paid_touch = patient_email ex_patient"
    by (simp_all add: ex_paid_touch_def ex_patient_def)
  have h7: "1710028800000000 - timedelta_days 30 \<le> touch_timestamp ex_paid_touch"
    "touch_timestamp ex_paid_touch \<le> 1710028800000000"
    by (simp_all add: ex_paid_touch_def timedelta_days_def)
  have h8: "utm_medium ex_paid_touch \<in> {''cpc'', ''ppc'', ''paid''}"
    by (simp add: ex_paid_touch_def)
  note t = create_attribution_paid_touch[OF h1 h2 h3 h4 h5 h6 h7 h8, of ex_now]
  show ?thesis
    by (intro conjI h1 h2 a b c h4 h5 h6 h7 h8 t)
qed

lemmas rule_defs =
  paid_call_rule_def paid_touch_rule_def organic_call_rule_def organic_touch_rule_def

lemma decide_attributions:
  assumes "call_events d' = call_events d" and "marketing_touches d' = marketing_touches d"
    and "tie_rank d' = tie_rank d"
  shows "decide now p invoice paid_at d' = decide now p invoice paid_at d"
proof -
  have "candidate_calls p l t d' = candidate_calls p l t d" for l t
    using assms(1,3) by (simp add: candidate_calls_def)
  moreover have "candidate_touches p l t d' = candidate_touches p l t d" for l t
    using assms(2,3) by (simp add: candidate_touches_def)
  ultimately show ?thesis by (simp add: decide_def)
qed

lemma dict_set_comm:
  "k \<noteq> k' \<Longrightarrow> k \<in> fst ` set ev \<Longrightarrow>
   dict_set k v (dict_set k' v' ev) = dict_set k' v' (dict_set k v ev)"
  by (induction ev) force+

lemma dict_set_keys: "fst ` set (dict_set k v ev) = insert k (fst ` set ev)"
  by (induction ev) (force split: if_splits)+

lemma dict_get_set: "dict_get (dict_set k v ev) k' = (if k' = k then Some v else dict_get ev k')"
  by (induction ev) (auto simp: dict_get_def)

text \<open>Writing an entry under a key that is not \<open>attribution_reason\<close> commutes with a rule.\<close>

lemma rule_stamp:
  assumes "k \<in> fst ` set (evidence dc)" and "k \<noteq> ''attribution_reason''"
  shows "paid_call_rule cs (dc\<lparr>evidence := dict_set k v (evidence dc)\<rparr>) =
           (paid_call_rule cs dc)\<lparr>evidence := dict_set k v (evidence (paid_call_rule cs dc))\<rparr>"
    and "paid_touch_rule ts (dc\<lparr>evidence := dict_set k v (evidence dc)\<rparr>) =
           (paid_touch_rule ts dc)\<lparr>evidence := dict_set k v (evidence (paid_touch_rule ts dc))\<rparr>"
    and "organic_call_rule cs (dc\<lparr>evidence := dict_set k v (evidence dc)\<rparr>) =
           (organic_call_rule cs dc)\<lparr>evidence := dict_set k v (evidence (organic_call_rule cs dc))\<rparr>"
    and "organic_touch_rule ts (dc\<lparr>evidence := dict_set k v (evidence dc)\<rparr>) =
           (organic_touch_rule ts dc)\<lparr>evidence := dict_set k v (evidence (organic_touch_rule ts dc))\<rparr>"
  using assms
  by (simp_all add: rule_defs dict_set_comm[of k "''attribution_reason''"]
      split: option.splits list.splits)

lemma rule_keys:
  assumes "k \<in> fst ` set (evidence dc)"
  shows "k \<in> fst ` set (evidence (paid_call_rule cs dc))"
    and "k \<in> fst ` set (evidence (paid_touch_rule ts dc))"
    and "k \<in> fst ` set (evidence (organic_call_rule cs dc))"
    and "k \<in> fst ` set (evidence (organic_touch_rule ts dc))"
  using assms
  by (simp_all add: rule_defs dict_set_keys split: option.splits list.splits)

lemma count_stamp:
  assumes "''evaluated_at'' \<in> fst ` set ev"
  shows "count_touches ts (count_calls p cs (dict_set ''evaluated_at'' v ev)) =
         dict_set ''evaluated_at'' v (count_touches ts (count_calls p cs ev))"
    and "''evaluated_at'' \<in> fst ` set (count_touches ts (count_calls p cs ev))"
proof -
  have 1: "count_calls p cs (dict_set ''evaluated_at'' v ev) =
           dict_set ''evaluated_at'' v (count_calls p cs ev)"
    using assms by (simp add: count_calls_def dict_set_comm[of "''evaluated_at''"])
  have 2: "''evaluated_at'' \<in> fst ` set (count_calls p cs ev)"
    using assms by (simp add: count_calls_def dict_set_keys)
  show "count_touches ts (count_calls p cs (dict_set ''evaluated_at'' v ev)) =
         dict_set ''evaluated_at'' v (count_touches ts (count_calls p cs ev))"
    using 2 by (simp add: 1 count_touches_def dict_set_comm[of "''evaluated_at''"])
  show "''evaluated_at'' \<in> fst ` set (count_touches ts (count_calls p cs ev))"
    using 2 by (simp add: count_touches_def dict_set_keys)
qed

lemma initial_evidence_now:
  "initial_evidence now2 invoice paid_at l =
   dict_set ''evaluated_at'' (JStr (isoformat now2)) (initial_evidence now1 invoice paid_at l)"
  "''evaluated_at'' \<in> fst ` set (initial_evidence now1 invoice paid_at l)"
  by (simp_all add: initial_evidence_def)

lemma decide_evaluated_at:
  "decide now2 p invoice paid_at d =
     (decide now1 p invoice paid_at d)
       \<lparr>evidence := dict_set ''evaluated_at'' (JStr (isoformat now2))
                      (evidence (decide now1 p invoice paid_at d))\<rparr>"
proof -
  let ?l = "paid_at - timedelta_days 30"
  let ?cs = "candidate_calls p ?l paid_at d"
  let ?ts = "candidate_touches p ?l paid_at d"
  let ?ev = "count_touches ?ts (count_calls p ?cs (initial_evidence now1 invoice paid_at ?l))"
  let ?dc = "\<lparr>attributed_source = None, dec_attribution_type = ''unknown'',
              dec_campaign_name = [], dec_campaign_source = [],
              dec_campaign_medium = [], evidence = ?ev\<rparr>"
  let ?v = "JStr (isoformat now2)"
  have k0: "''evaluated_at'' \<in> fst ` set (evidence ?dc)"
    using count_stamp(2)[OF initial_evidence_now(2)] by simp
  have ne: "''evaluated_at'' \<noteq> ''attribution_reason''" by simp
  have e2: "count_touches ?ts (count_calls p ?cs (initial_evidence now2 invoice paid_at ?l)) =
            dict_set ''evaluated_at'' ?v ?ev"
    using count_stamp(1)[OF initial_evidence_now(2)] initial_evidence_now(1) by metis
  have s0: "\<lparr>attributed_source = None, dec_attribution_type = ''unknown'',
              dec_campaign_name = [], dec_campaign_source = [],
              dec_campaign_medium = [], evidence = dict_set ''evaluated_at'' ?v ?ev\<rparr> =
            ?dc\<lparr>evidence := dict_set ''evaluated_at'' ?v (evidence ?dc)\<rparr>"
    by simp
  note k1 = rule_keys(1)[OF k0, of ?cs]
  note k2 = rule_keys(2)[OF k1, of ?ts]
  note k3 = rule_keys(3)[OF k2, of ?cs]
  show ?thesis
    unfolding decide_def Let_def e2 s0
    by (simp only: rule_stamp(1)[OF k0 ne] rule_stamp(2)[OF k1 ne] rule_stamp(3)[OF k2 ne]
        rule_stamp(4)[OF k3 ne])
qed

lemma rule_get:
  assumes "k \<noteq> ''attribution_reason''"
  shows "dict_get (evidence (paid_call_rule cs dc)) k = dict_get (evidence dc) k"
    and "dict_get (evidence (paid_touch_rule ts dc)) k = dict_get (evidence dc) k"
    and "dict_get (evidence (organic_call_rule cs dc)) k = dict_get (evidence dc) k"
    and "dict_get (evidence (organic_touch_rule ts dc)) k = dict_get (evidence dc) k"
  using assms
  by (simp_all add: rule_defs dict_get_set split: option.splits list.splits)

lemma decide_get:
  assumes "k \<noteq> ''attribution_reason''"
  shows "dict_get (evidence (decide now p invoice paid_at d)) k =
         dict_get (count_touches (candidate_touches p (paid_at - timedelta_days 30) paid_at d)
                    (count_calls p (candidate_calls p (paid_at - timedelta_days 30) paid_at d)
                       (initial_evidence now invoice paid_at (paid_at - timedelta_days 30)))) k"
  by (simp add: decide_def Let_def rule_get[OF assms])

lemma decide_no_previous:
  "dict_get (evidence (decide now p invoice paid_at d)) ''previous_attribution'' = None"
proof -
  have "dict_get (initial_evidence now invoice paid_at l) ''previous_attribution'' = None" for l
    by (simp add: initial_evidence_def dict_get_def)
  then show ?thesis
    by (simp add: decide_get count_touches_def count_calls_def dict_get_set)
qed

lemma apply_defaults_keeps [simp]:
  "attr_id (apply_defaults p invoice paid_at dc a) = attr_id a"
  "attr_patient (apply_defaults p invoice paid_at dc a) = attr_patient a"
  "attr_status (apply_defaults p invoice paid_at dc a) = attr_status a"
  "overridden_by (apply_defaults p invoice paid_at dc a) = overridden_by a"
  "override_reason (apply_defaults p invoice paid_at dc a) = override_reason a"
  "overridden_at (apply_defaults p invoice paid_at dc a) = overridden_at a"
  by (simp_all add: apply_defaults_def)

lemma apply_defaults_twice:
  "apply_defaults p invoice paid_at dc2 (apply_defaults p invoice paid_at dc1 a) =
   apply_defaults p invoice paid_at dc2 a"
  by (simp add: apply_defaults_def)

text \<open>Saving a row under its primary key, in a table whose keys are distinct.\<close>

lemma filter_replace_row:
  assumes "distinct (map attr_id xs)"
    and "filter (\<lambda>a. attr_patient a = pid) xs = [a0]"
    and "attr_id a' = attr_id a0" and "attr_patient a' = pid"
  shows "filter (\<lambda>a. attr_patient a = pid)
           (map (\<lambda>x. if attr_id x = attr_id a' then a' else x) xs) = [a']"
proof -
  have "a0 \<in> set (filter (\<lambda>a. attr_patient a = pid) xs)"
    by (simp add: assms(2))
  then have a0: "a0 \<in> set xs" "attr_patient a0 = pid"
    by simp_all
  have inj: "inj_on attr_id (set xs)"
    using assms(1) by (simp add: distinct_map)
  have eq: "map (\<lambda>x. if attr_id x = attr_id a' then a' else x) xs =
            map (\<lambda>x. if x = a0 then a' else x) xs"
    using inj a0(1) assms(3) by (auto simp: inj_on_def)
  have "filter (\<lambda>a. attr_patient a = pid) (map (\<lambda>x. if x = a0 then a' else x) xs) =
        map (\<lambda>x. if x = a0 then a' else x) (filter (\<lambda>a. attr_patient a = pid) xs)"
    using a0(2) assms(4) by (induction xs) auto
  then show ?thesis by (simp add: eq assms(2))
qed

lemma next_pk_fresh: "next_pk ks \<notin> set ks"
proof -
  have "k \<in> set ks \<Longrightarrow> k \<le> foldr max ks 0" for k
    by (induction ks) auto
  then show ?thesis by (fastforce simp: next_pk_def)
qed

lemma update_or_create_single:
  assumes "length (filter (\<lambda>a. attr_patient a = pid) (attributions d)) \<le> 1"
    and "distinct (map attr_id (attributions d))"
    and "\<And>a. attr_id (f a) = attr_id a" and "\<And>a. attr_patient (f a) = attr_patient a"
  shows "\<exists>a0 d'. update_or_create pid f d = Inr (f a0, d') \<and>
           (filter (\<lambda>a. attr_patient a = pid) (attributions d) = [] \<and>
              a0 = new_attribution (next_pk (map attr_id (attributions d))) pid \<or>
            filter (\<lambda>a. attr_patient a = pid) (attributions d) = [a0]) \<and>
           filter (\<lambda>a. attr_patient a = pid) (attributions d') = [f a0] \<and>
           distinct (map attr_id (attributions d')) \<and>
           call_events d' = call_events d \<and> marketing_touches d' = marketing_touches d \<and>
           tie_rank d' = tie_rank d"
proof -
  from update_or_create_ok[OF assms(1), of f] obtain a0 d' where
    r: "update_or_create pid f d = Inr (f a0, d')" and p: "attr_patient a0 = pid" and
    c: "filter (\<lambda>a. attr_patient a = pid) (attributions d) = [] \<and>
          a0 = new_attribution (next_pk (map attr_id (attributions d))) pid \<and>
          d' = d\<lparr>attributions := attributions d @ [f a0]\<rparr>
        \<or> filter (\<lambda>a. attr_patient a = pid) (attributions d) = [a0] \<and>
          d' = d\<lparr>attributions :=
                   map (\<lambda>x. if attr_id x = attr_id (f a0) then f a0 else x) (attributions d)\<rparr>"
    by blast
  from c show ?thesis
  proof
    assume n: "filter (\<lambda>a. attr_patient a = pid) (attributions d) = [] \<and>
          a0 = new_attribution (next_pk (map attr_id (attributions d))) pid \<and>
          d' = d\<lparr>attributions := attributions d @ [f a0]\<rparr>"
    then have "attr_id (f a0) = next_pk (map attr_id (attributions d))"
      by (simp add: assms(3) new_attribution_def)
    then have fresh: "attr_id (f a0) \<notin> set (map attr_id (attributions d))"
      using next_pk_fresh by metis
    have one: "filter (\<lambda>a. attr_patient a = pid) (attributions d') = [f a0]"
      using n p by (simp add: assms(4))
    have dist: "distinct (map attr_id (attributions d'))"
      using n fresh assms(2) by simp
    have same: "call_events d' = call_events d" "marketing_touches d' = marketing_touches d"
      "tie_rank d' = tie_rank d"
      using n by simp_all
    from r n one dist same show ?thesis by blast
  next
    assume u: "filter (\<lambda>a. attr_patient a = pid) (attributions d) = [a0] \<and>
          d' = d\<lparr>attributions :=
                   map (\<lambda>x. if attr_id x = attr_id (f a0) then f a0 else x) (attributions d)\<rparr>"
    have one: "filter (\<lambda>a. attr_patient a = pid) (attributions d') = [f a0]"
      using u filter_replace_row[OF assms(2), of pid a0 "f a0"] p
      by (simp add: assms(3,4))
    have "map attr_id (attributions d') = map attr_id (attributions d)"
      using u by (auto simp: assms(3))
    then have dist: "distinct (map attr_id (attributions d'))"
      using assms(2) by simp
    have same: "call_events d' = call_events d" "marketing_touches d' = marketing_touches d"
      "tie_rank d' = tie_rank d"
      using u by simp_all
    from r u one dist same show ?thesis by blast
  qed
qed

text \<open>
  Claim C5. For a patient and a paid invoice, two calls of \<open>create_attribution\<close> with
  the same inputs, the second on the database the first left (which holds the same
  calls and touches), each leave exactly one attribution row for the patient, and
  the second row is the first except for the \<open>evaluated_at\<close> entry of the evidence.
  The table of attributions has distinct primary keys and at most one row per patient,
  as the schema guarantees; the columns \<open>created_at\<close> and \<open>updated_at\<close> that the
  framework stamps by itself are outside the record.
\<close>

theorem create_attribution_idempotent:
  assumes "invoice_paid_at invoice = Some paid_at"
    and "length (filter (\<lambda>a. attr_patient a = patient_id p) (attributions d)) \<le> 1"
    and "distinct (map attr_id (attributions d))"
  shows "\<exists>a1 d1 a2 d2.
           create_attribution now1 p invoice d = Inr (a1, d1) \<and>
           create_attribution now2 p invoice d1 = Inr (a2, d2) \<and>
           call_events d1 = call_events d \<and> marketing_touches d1 = marketing_touches d \<and>
           filter (\<lambda>a. attr_patient a = patient_id p) (attributions d1) = [a1] \<and>
           filter (\<lambda>a. attr_patient a = patient_id p) (attributions d2) = [a2] \<and>
           a2 = a1\<lparr>evidence_json :=
                     dict_set ''evaluated_at'' (JStr (isoformat now2)) (evidence_json a1)\<rparr>"
proof -
  let ?f1 = "apply_defaults p invoice paid_at (decide now1 p invoice paid_at d)"
  from update_or_create_single[OF assms(2,3), of ?f1] obtain a0 d1 where
    r1: "update_or_create (patient_id p) ?f1 d = Inr (?f1 a0, d1)" and
    one1: "filter (\<lambda>a. attr_patient a = patient_id p) (attributions d1) = [?f1 a0]" and
    dist1: "distinct (map attr_id (attributions d1))" and
    same: "call_events d1 = call_events d" "marketing_touches d1 = marketing_touches d"
      "tie_rank d1 = tie_rank d"
    by auto
  let ?f2 = "apply_defaults p invoice paid_at (decide now2 p invoice paid_at d1)"
  have le: "length (filter (\<lambda>a. attr_patient a = patient_id p) (attributions d1)) \<le> 1"
    by (simp add: one1)
  from update_or_create_single[OF le dist1, of ?f2] one1 obtain d2 where
    r2: "update_or_create (patient_id p) ?f2 d1 = Inr (?f2 (?f1 a0), d2)" and
    one2: "filter (\<lambda>a. attr_patient a = patient_id p) (attributions d2) = [?f2 (?f1 a0)]"
    by auto
  have dec: "decide now2 p invoice paid_at d1 =
     (decide now1 p invoice paid_at d)
       \<lparr>evidence := dict_set ''evaluated_at'' (JStr (isoformat now2))
                      (evidence (decide now1 p invoice paid_at d))\<rparr>"
    using decide_attributions[OF same] decide_evaluated_at by metis
  have eq: "?f2 (?f1 a0) =
     (?f1 a0)\<lparr>evidence_json :=
                dict_set ''evaluated_at'' (JStr (isoformat now2)) (evidence_json (?f1 a0))\<rparr>"
    by (simp add: dec apply_defaults_def)
  show ?thesis
    using r1 r2 one1 one2 same eq assms(1)
    by (intro exI[of _ "?f1 a0"] exI[of _ d1] exI[of _ "?f2 (?f1 a0)"] exI[of _ d2])
       (simp add: create_attribution_def)
qed

theorem create_attribution_idempotent_witness:
  "invoice_paid_at ex_invoice = Some 1710028800000000 \<and>
   length (filter (\<lambda>a. attr_patient a = patient_id ex_patient) (attributions ex_db)) \<le> 1 \<and>
   distinct (map attr_id (attributions ex_db)) \<and>
   (\<exists>a1 d1 a2 d2.
      create_attribution ex_now ex_patient ex_invoice ex_db = Inr (a1, d1) \<and>
      create_attribution (ex_now + 1) ex_patient ex_invoice d1 = Inr (a2, d2) \<and>
      call_events d1 = call_events ex_db \<and> marketing_touches d1 = marketing_touches ex_db \<and>
      filter (\<lambda>a. attr_patient a = patient_id ex_patient) (attributions d1) = [a1] \<and>
      filter (\<lambda>a. attr_patient a = patient_id ex_patient) (attributions d2) = [a2] \<and>
      a2 = a1\<lparr>evidence_json :=
                dict_set ''evaluated_at'' (JStr (isoformat (ex_now + 1))) (evidence_json a1)\<rparr>)"
proof -
  have h1: "invoice_paid_at ex_invoice = Some 1710028800000000"
    by (simp add: ex_invoice_def)
  have h2: "length (filter (\<lambda>a. attr_patient a = patient_id ex_patient) (attributions ex_db)) \<le> 1"
    by (simp add: ex_db_def)
  have h3: "distinct (map attr_id (attributions ex_db))"
    by (simp add: ex_db_def)
  from create_attribution_idempotent[OF h1 h2 h3, of ex_now "ex_now + 1"] h1 h2 h3
  show ?thesis by blast
qed

text \<open>
  Claim C10. When the patient already has an attribution row (for instance one that
  \<open>override_attribution\<close> left with status \<open>manual\<close> and a \<open>previous_attribution\<close>
  entry), \<open>create_attribution\<close> overwrites that stored row: the database it leaves is
  the one before with the row of that primary key replaced by the returned row, the
  old row is no longer in the table, and the new row has the evidence, attribution
  type, source reference and campaign name, source and medium that
  \<open>create_attribution\<close> would give a patient without any attribution. The evidence is
  replaced wholesale and has no \<open>previous_attribution\<close> entry. The columns \<open>status\<close>,
  \<open>overridden_by\<close>, \<open>override_reason\<close> and \<open>overridden_at\<close> keep the values of the
  row.
\<close>

theorem create_attribution_after_override:
  assumes "invoice_paid_at invoice = Some paid_at"
    and "filter (\<lambda>a. attr_patient a = patient_id p) (attributions d) = [old]"
    and "attr_status old = ''manual''"
    and "dict_get (evidence_json old) ''previous_attribution'' = Some prev"
  shows "\<exists>a d' fresh d''.
           create_attribution now p invoice d = Inr (a, d') \<and>
           create_attribution now p invoice (d\<lparr>attributions := []\<rparr>) = Inr (fresh, d'') \<and>
           d' = d\<lparr>attributions :=
                    map (\<lambda>x. if attr_id x = attr_id old then a else x) (attributions d)\<rparr> \<and>
           a \<in> set (attributions d') \<and> old \<notin> set (attributions d') \<and>
           attr_id a = attr_id old \<and> attr_patient a = patient_id p \<and>
           evidence_json a = evidence_json fresh \<and>
           dict_get (evidence_json a) ''previous_attribution'' = None \<and>
           attribution_type a = attribution_type fresh \<and>
           content_type a = content_type fresh \<and> object_id a = object_id fresh \<and>
           campaign_name a = campaign_name fresh \<and>
           campaign_source a = campaign_source fresh \<and>
           campaign_medium a = campaign_medium fresh \<and>
           attr_status a = ''manual'' \<and> overridden_by a = overridden_by old \<and>
           override_reason a = override_reason old \<and> overridden_at a = overridden_at old"
proof -
  let ?dc = "decide now p invoice paid_at d"
  let ?n = "new_attribution (next_pk (map attr_id (attributions (d\<lparr>attributions := []\<rparr>))))
              (patient_id p)"
  let ?a = "apply_defaults p invoice paid_at ?dc old"
  let ?d' = "d\<lparr>attributions := map (\<lambda>x. if attr_id x = attr_id old then ?a else x)
                                   (attributions d)\<rparr>"
  have dec: "decide now p invoice paid_at (d\<lparr>attributions := []\<rparr>) = ?dc"
    by (rule decide_attributions) simp_all
  have 1: "create_attribution now p invoice d = Inr (?a, ?d')"
    using assms(1,2) by (simp add: create_attribution_def update_or_create_def Let_def)
  have 2: "create_attribution now p invoice (d\<lparr>attributions := []\<rparr>) =
      Inr (apply_defaults p invoice paid_at ?dc ?n,
           d\<lparr>attributions := [apply_defaults p invoice paid_at ?dc ?n]\<rparr>)"
    using assms(1) by (simp add: create_attribution_def update_or_create_def Let_def dec)
  have "old \<in> set (filter (\<lambda>a. attr_patient a = patient_id p) (attributions d))"
    by (simp add: assms(2))
  then have old: "old \<in> set (attributions d)" "attr_patient old = patient_id p"
    by simp_all
  have ne: "?a \<noteq> old"
  proof
    assume "?a = old"
    then have "evidence_json ?a = evidence_json old" by simp
    then have "dict_get (evidence ?dc) ''previous_attribution'' = Some prev"
      using assms(4) by (simp add: apply_defaults_def)
    then show False by (simp add: decide_no_previous)
  qed
  have 3: "?a \<in> set (attributions ?d')"
    using old(1) by (auto simp: image_iff intro!: bexI[of _ old])
  have 4: "old \<notin> set (attributions ?d')"
    using ne by auto
  have 5: "attr_id ?a = attr_id old" "attr_patient ?a = patient_id p"
    using old(2) by simp_all
  have 6: "evidence_json ?a = evidence_json (apply_defaults p invoice paid_at ?dc ?n)"
    "dict_get (evidence_json ?a) ''previous_attribution'' = None"
    "attribution_type ?a = attribution_type (apply_defaults p invoice paid_at ?dc ?n)"
    "content_type ?a = content_type (apply_defaults p invoice paid_at ?dc ?n)"
    "object_id ?a = object_id (apply_defaults p invoice paid_at ?dc ?n)"
    "campaign_name ?a = campaign_name (apply_defaults p invoice paid_at ?dc ?n)"
    "campaign_source ?a = campaign_source (apply_defaults p invoice paid_at ?dc ?n)"
    "campaign_medium ?a = campaign_medium (apply_defaults p invoice paid_at ?dc ?n)"
    using decide_no_previous[of now p invoice paid_at d]
    by (simp_all add: apply_defaults_def)
  have 7: "attr_status ?a = ''manual''" "overridden_by ?a = overridden_by old"
    "override_reason ?a = override_reason old" "overridden_at ?a = overridden_at old"
    using assms(3) by simp_all
  show ?thesis
    by (intro exI[of _ ?a] exI[of _ ?d'] exI[of _ "apply_defaults p invoice paid_at ?dc ?n"]
        exI[of _ "d\<lparr>attributions := [apply_defaults p invoice paid_at ?dc ?n]\<rparr>"]
        conjI 1 2 refl 3 4 5 6 7)
qed

theorem create_attribution_after_override_witness:
  "invoice_paid_at ex_invoice = Some 1710028800000000 \<and>
   filter (\<lambda>a. attr_patient a = patient_id ex_patient)
     (attributions (snd (override_all (loaded ex_attribution) [ex_override1] ex_db_attributed))) =
     [inst_columns (fst (override_all (loaded ex_attribution) [ex_override1] ex_db_attributed))] \<and>
   attr_status
     (inst_columns (fst (override_all (loaded ex_attribution) [ex_override1] ex_db_attributed))) =
     ''manual'' \<and>
   dict_get (evidence_json
     (inst_columns (fst (override_all (loaded ex_attribution) [ex_override1] ex_db_attributed))))
     ''previous_attribution'' =
     Some (JObj [(''type'', JStr ''call''), (''source'', JStr ''Call CA2 from +1234567890''),
                 (''campaign'', JStr [])]) \<and>
   (\<exists>a d' fresh d''.
      create_attribution ex_now ex_patient ex_invoice
        (snd (override_all (loaded ex_attribution) [ex_override1] ex_db_attributed)) =
        Inr (a, d') \<and>
      create_attribution ex_now ex_patient ex_invoice
        ((snd (override_all (loaded ex_attribution) [ex_override1] ex_db_attributed))
           \<lparr>attributions := []\<rparr>) = Inr (fresh, d'') \<and>
      d' = (snd (override_all (loaded ex_attribution) [ex_override1] ex_db_attributed))
             \<lparr>attributions := [a]\<rparr> \<and>
      attr_id a = 1 \<and> attr_patient a = patient_id ex_patient \<and>
      evidence_json a = evidence_json fresh \<and>
      dict_get (evidence_json a) ''previous_attribution'' = None \<and>
      attribution_type a = attribution_type fresh \<and>
      content_type a = content_type fresh \<and> object_id a = object_id fresh \<and>
      campaign_name a = campaign_name fresh \<and>
      campaign_source a = campaign_source fresh \<and>
      campaign_medium a = campaign_medium fresh \<and>
      attr_status a = ''manual'' \<and> overridden_by a = Some 7 \<and>
      override_reason a = ''patient named the ad'' \<and>
      overridden_at a = Some 1710115200000000)"
proof -
  let ?a = "inst_columns (fst (override_all (loaded ex_attribution) [ex_override1] ex_db_attributed))"
  let ?d = "snd (override_all (loaded ex_attribution) [ex_override1] ex_db_attributed)"
  have rows: "attributions ?d = [?a]"
    by code_simp
  have h1: "invoice_paid_at ex_invoice = Some 1710028800000000"
    by (simp add: ex_invoice_def)
  have h2: "filter (\<lambda>a. attr_patient a = patient_id ex_patient) (attributions ?d) = [?a]"
    by code_simp
  have h3: "attr_status ?a = ''manual''"
    by code_simp
  have h4: "dict_get (evidence_json ?a) ''previous_attribution'' =
     Some (JObj [(''type'', JStr ''call''), (''source'', JStr ''Call CA2 from +1234567890''),
                 (''campaign'', JStr [])])"
    by code_simp
  have k: "attr_id ?a = 1" "overridden_by ?a = Some 7"
    "override_reason ?a = ''patient named the ad''" "overridden_at ?a = Some 1710115200000000"
    by code_simp+
  from create_attribution_after_override[OF h1 h2 h3 h4, of ex_now]
  obtain a d' fresh d'' where t:
    "create_attribution ex_now ex_patient ex_invoice ?d = Inr (a, d')"
    "create_attribution ex_now ex_patient ex_invoice (?d\<lparr>attributions := []\<rparr>) = Inr (fresh, d'')"
    "d' = ?d\<lparr>attributions := map (\<lambda>x. if attr_id x = attr_id ?a then a else x) (attributions ?d)\<rparr>"
    "attr_id a = attr_id ?a" "attr_patient a = patient_id ex_patient"
    "evidence_json a = evidence_json fresh"
    "dict_get (evidence_json a) ''previous_attribution'' = None"
    "attribution_type a = attribution_type fresh"
    "content_type a = content_type fresh" "object_id a = object_id fresh"
    "campaign_name a = campaign_name fresh"
    "campaign_source a = campaign_source fresh"
    "campaign_medium a = campaign_medium fresh"
    "attr_status a = ''manual''" "overridden_by a = overridden_by ?a"
    "override_reason a = override_reason ?a" "overridden_at a = overridden_at ?a"
    by blast
  have d': "d' = ?d\<lparr>attributions := [a]\<rparr>"
    unfolding t(3) rows by simp
  show ?thesis
    using t(1,2) d' t(4-17) unfolding k
    by (intro conjI h1 h2 h3 h4 exI[of _ a] exI[of _ d'] exI[of _ fresh] exI[of _ d''])
qed

section \<open>The evidence object\<close>

lemma decide_call_count:
  "dict_get (evidence (decide now p invoice paid_at d)) ''call_events_found'' =
     (if patient_phone p \<noteq> []
      then Some (JInt (int (length (candidate_calls p (paid_at - timedelta_days 30) paid_at d))))
      else None)"
proof -
  have "dict_get (initial_evidence now invoice paid_at l) ''call_events_found'' = None" for l
    by (simp add: initial_evidence_def dict_get_def)
  then show ?thesis
    by (simp add: decide_get count_touches_def count_calls_def dict_get_set)
qed

lemma decide_touch_count:
  "dict_get (evidence (decide now p invoice paid_at d)) ''marketing_touches_found'' =
     Some (JInt (int (length (candidate_touches p (paid_at - timedelta_days 30) paid_at d))))"
  by (simp add: decide_get count_touches_def dict_get_set)

lemma decide_unknown:
  assumes "candidate_calls p (paid_at - timedelta_days 30) paid_at d = []"
    and "candidate_touches p (paid_at - timedelta_days 30) paid_at d = []"
  shows "dec_attribution_type (decide now p invoice paid_at d) = ''unknown''"
    and "dict_get (evidence (decide now p invoice paid_at d)) ''attribution_reason'' = None"
proof -
  have "dict_get (initial_evidence now invoice paid_at l) ''attribution_reason'' = None" for l
    by (simp add: initial_evidence_def dict_get_def)
  then show "dict_get (evidence (decide now p invoice paid_at d)) ''attribution_reason'' = None"
    using assms
    by (simp add: decide_def Let_def rule_defs count_touches_def count_calls_def dict_get_set)
  show "dec_attribution_type (decide now p invoice paid_at d) = ''unknown''"
    using assms by (simp add: decide_def Let_def rule_defs)
qed

text \<open>
  Claim C9. The evidence object is said to record, in every case, the invoice id,
  amount and paid timestamp, the lookback boundary, the evaluation timestamp, the
  counts of candidate calls and touches, and a reason string. For a patient without
  phone and without email the source reaches the \<open>unknown\<close> branch with six entries
  only: \<open>call_events_found\<close> is assigned inside \<open>if patient.phone\<close>, while the count of
  touches is assigned unconditionally, and no branch assigns \<open>attribution_reason\<close>
  when both candidate sets are empty.
\<close>

theorem create_attribution_evidence_gaps:
  "(case create_attribution ex_now ex_anonymous ex_invoice ex_db of
      Inl e \<Rightarrow> None
    | Inr (a, d') \<Rightarrow>
        Some (attribution_type a, dict_keys (evidence_json a),
              dict_get (evidence_json a) ''call_events_found'',
              dict_get (evidence_json a) ''attribution_reason'')) =
   Some (''unknown'',
         [''invoice_id'', ''invoice_amount'', ''paid_at'', ''lookback_start'', ''evaluated_at'',
          ''marketing_touches_found''],
         None, None)"
proof -
  let ?l = "1710028800000000 - timedelta_days 30"
  have cs: "candidate_calls ex_anonymous ?l 1710028800000000 ex_db = []"
    by (simp add: candidate_calls_def ex_anonymous_def)
  have ts: "candidate_touches ex_anonymous ?l 1710028800000000 ex_db = []"
    by (simp add: candidate_touches_def ex_anonymous_def)
  have ph: "patient_phone ex_anonymous = []"
    by (simp add: ex_anonymous_def)
  have dc: "decide ex_now ex_anonymous ex_invoice 1710028800000000 ex_db =
      \<lparr>attributed_source = None, dec_attribution_type = ''unknown'',
       dec_campaign_name = [], dec_campaign_source = [], dec_campaign_medium = [],
       evidence = dict_set ''marketing_touches_found'' (JInt 0)
                    (initial_evidence ex_now ex_invoice 1710028800000000 ?l)\<rparr>"
    by (simp add: decide_def Let_def cs ts ph rule_defs count_calls_def count_touches_def)
  have none: "filter (\<lambda>a. attr_patient a = patient_id ex_anonymous) (attributions ex_db) = []"
    by (simp add: ex_db_def)
  have pa: "invoice_paid_at ex_invoice = Some 1710028800000000"
    by (simp add: ex_invoice_def)
  show ?thesis
    by (simp add: create_attribution_def update_or_create_def Let_def pa none dc
        apply_defaults_def initial_evidence_def dict_keys_def dict_get_def)
qed

section \<open>Properties of the override handler\<close>



lemma set_new_source_keeps [simp]:
  "attr_id (set_new_source new_source a) = attr_id a"
  "evidence_json (set_new_source new_source a) = evidence_json a"
  "attribution_type (set_new_source new_source a) = attribution_type a"
  by (cases new_source; cases "the new_source"; simp)+












text \<open>
  On the instance that an override of a source-less attribution returned, the generic
  foreign key still returns none: the next override records no source, although the
  stored row names the touch.
\<close>

lemma ex_stale_source:
  "dict_get (evidence_json (inst_columns
       (fst (override_all (loaded ex_unsourced) [ex_override_touch, ex_override2]
               (ex_db\<lparr>attributions := [ex_unsourced]\<rparr>)))))
     ''previous_attribution'' =
     Some (JObj [(''type'', JStr ''unknown''), (''source'', JNull), (''campaign'', JStr [])]) \<and>
   fetch_source (ex_db\<lparr>attributions := [ex_unsourced]\<rparr>)
     (inst_columns (fst (override_all (loaded ex_unsourced) [ex_override_touch]
                           (ex_db\<lparr>attributions := [ex_unsourced]\<rparr>)))) =
     Some (TouchSrc ex_paid_touch)"
  by (simp add: ex_defs override_attribution_def Let_def previous_attribution_def
      get_attributed_source_def fetch_source_def loaded_def attribution_save_def dict_get_def)

section \<open>The audit log\<close>

text \<open>Rows that \<open>save\<close> inserts get positive primary keys, so a stored row has one.\<close>

lemma audit_save_positive_keys:
  assumes "\<forall>r \<in> set tbl. \<exists>k. audit_pk r = Some k \<and> 0 < k"
    and "audit_pk self = None"
  shows "\<forall>r \<in> set (snd (audit_save self tbl)). \<exists>k. audit_pk r = Some k \<and> 0 < k"
  using assms by (auto simp: audit_save_def model_save_def next_pk_def)

lemma audit_save_appends:
  assumes "audit_pk self \<noteq> Some 0"
  shows "take (length tbl) (snd (audit_save self tbl)) = tbl"
  using assms by (cases "audit_pk self") (simp_all add: audit_save_def model_save_def)

lemma audit_calls_append_only:
  assumes "\<forall>c \<in> set calls. audit_pk (call_instance c) \<noteq> Some 0"
  shows "take (length tbl) (audit_calls calls tbl) = tbl"
  using assms
proof (induction calls arbitrary: tbl)
  case Nil
  show ?case by simp
next
  case (Cons c calls)
  let ?t1 = "audit_calls [c] tbl"
  have 1: "take (length tbl) ?t1 = tbl"
  proof (cases c)
    case (SaveCall self)
    then have "audit_pk self \<noteq> Some 0" using Cons.prems by simp
    then show ?thesis using SaveCall by (simp add: audit_save_appends)
  next
    case (DeleteCall self)
    then show ?thesis by (simp add: audit_delete_def)
  qed
  have step: "audit_calls (c # calls) tbl = audit_calls calls ?t1"
    by (cases c) simp_all
  have 2: "take (length ?t1) (audit_calls calls ?t1) = ?t1"
    using Cons.IH[of ?t1] Cons.prems by simp
  have "length (take (length tbl) ?t1) = length tbl"
    by (simp only: 1)
  then have len: "length tbl \<le> length ?t1"
    by (simp add: min_def split: if_splits)
  have "take (length tbl) (audit_calls calls ?t1) =
        take (length tbl) (take (length ?t1) (audit_calls calls ?t1))"
    using len by (simp add: min_def)
  also have "\<dots> = tbl" by (simp only: 2 1)
  finally show ?case by (simp only: step)
qed

text \<open>
  The claim C6 as it was stated fails: a stored audit row is removed, without any
  error, when its clinic is deleted.
\<close>

theorem audit_log_cascade_counterexample:
  "ex_audit_row \<in> set [ex_audit_row] \<and> audit_pk ex_audit_row = Some 1 \<and>
   audit_clinic ex_audit_row = 1 \<and>
   clinic_delete_cascade 1 [ex_audit_row] = []"
  by (simp add: clinic_delete_cascade_def ex_audit_row_def)

text \<open>
  Claim C6, as amended. For a stored audit row (its primary key is a positive
  number), calling \<open>save\<close> on an instance that carries that key raises \<open>ValueError\<close>,
  calling \<open>delete\<close> on it raises \<open>ValueError\<close>, and either call leaves the table as it
  was. Over every sequence of calls of \<open>save\<close> and \<open>delete\<close> on instances whose
  primary key is none or positive, the rows of the table stay as they are, in their
  places: the table only grows at its end.
\<close>

theorem audit_log_immutable:
  assumes "r \<in> set tbl" and "audit_pk r = Some k" and "0 < k"
    and "audit_pk self = audit_pk r"
    and "\<forall>c \<in> set calls. audit_pk (call_instance c) \<noteq> Some 0"
  shows "audit_save self tbl = (Inl (ValueError ''AuditLog entries cannot be modified''), tbl) \<and>
         audit_delete self tbl = (Inl (ValueError ''AuditLog entries cannot be deleted''), tbl) \<and>
         take (length tbl) (audit_calls calls tbl) = tbl \<and>
         r \<in> set (audit_calls calls tbl)"
proof -
  have 1: "audit_save self tbl = (Inl (ValueError ''AuditLog entries cannot be modified''), tbl)"
    using assms(2-4) by (simp add: audit_save_def)
  have 2: "audit_delete self tbl = (Inl (ValueError ''AuditLog entries cannot be deleted''), tbl)"
    by (simp add: audit_delete_def)
  have 3: "take (length tbl) (audit_calls calls tbl) = tbl"
    using assms(5) by (rule audit_calls_append_only)
  have "set (take (length tbl) (audit_calls calls tbl)) \<subseteq> set (audit_calls calls tbl)"
    by (rule set_take_subset)
  then have 4: "r \<in> set (audit_calls calls tbl)"
    using assms(1) unfolding 3 by blast
  show ?thesis by (intro conjI 1 2 3 4)
qed

theorem audit_log_immutable_witness:
  "ex_audit_row \<in> set [ex_audit_row] \<and> audit_pk ex_audit_row = Some 1 \<and> (0::nat) < 1 \<and>
   audit_pk (ex_audit_row\<lparr>audit_action := ''delete''\<rparr>) = audit_pk ex_audit_row \<and>
   audit_pk (call_instance (SaveCall (ex_audit_row\<lparr>audit_pk := None\<rparr>))) \<noteq> Some 0 \<and>
   audit_pk (call_instance (SaveCall (ex_audit_row\<lparr>audit_action := ''update''\<rparr>))) \<noteq> Some 0 \<and>
   audit_pk (call_instance (DeleteCall ex_audit_row)) \<noteq> Some 0 \<and>
   audit_save (ex_audit_row\<lparr>audit_action := ''delete''\<rparr>) [ex_audit_row] =
     (Inl (ValueError ''AuditLog entries cannot be modified''), [ex_audit_row]) \<and>
   audit_delete (ex_audit_row\<lparr>audit_action := ''delete''\<rparr>) [ex_audit_row] =
     (Inl (ValueError ''AuditLog entries cannot be deleted''), [ex_audit_row]) \<and>
   take (length [ex_audit_row])
     (audit_calls [SaveCall (ex_audit_row\<lparr>audit_pk := None\<rparr>),
                   SaveCall (ex_audit_row\<lparr>audit_action := ''update''\<rparr>),
                   DeleteCall ex_audit_row] [ex_audit_row]) = [ex_audit_row] \<and>
   ex_audit_row \<in> set (audit_calls [SaveCall (ex_audit_row\<lparr>audit_pk := None\<rparr>),
                                    SaveCall (ex_audit_row\<lparr>audit_action := ''update''\<rparr>),
                                    DeleteCall ex_audit_row] [ex_audit_row]) \<and>
   audit_calls [SaveCall (ex_audit_row\<lparr>audit_pk := None\<rparr>),
                SaveCall (ex_audit_row\<lparr>audit_action := ''update''\<rparr>),
                DeleteCall ex_audit_row] [ex_audit_row] =
     [ex_audit_row, ex_audit_row\<lparr>audit_pk := Some 2\<rparr>]"
proof -
  let ?calls = "[SaveCall (ex_audit_row\<lparr>audit_pk := None\<rparr>),
                 SaveCall (ex_audit_row\<lparr>audit_action := ''update''\<rparr>),
                 DeleteCall ex_audit_row]"
  have h1: "ex_audit_row \<in> set [ex_audit_row]" by simp
  have h2: "audit_pk ex_audit_row = Some 1" by (simp add: ex_audit_row_def)
  have h3: "(0::nat) < 1" by simp
  have h4: "audit_pk (ex_audit_row\<lparr>audit_action := ''delete''\<rparr>) = audit_pk ex_audit_row"
    by simp
  have k: "audit_pk (call_instance (SaveCall (ex_audit_row\<lparr>audit_pk := None\<rparr>))) \<noteq> Some 0"
    "audit_pk (call_instance (SaveCall (ex_audit_row\<lparr>audit_action := ''update''\<rparr>))) \<noteq> Some 0"
    "audit_pk (call_instance (DeleteCall ex_audit_row)) \<noteq> Some 0"
    by (simp_all add: ex_audit_row_def)
  have h5: "\<forall>c \<in> set ?calls. audit_pk (call_instance c) \<noteq> Some 0"
    using k by simp
  have run: "audit_calls ?calls [ex_audit_row] = [ex_audit_row, ex_audit_row\<lparr>audit_pk := Some 2\<rparr>]"
    by (simp add: audit_save_def audit_delete_def model_save_def next_pk_def
        List.map_filter_def ex_audit_row_def)
  note t = audit_log_immutable[OF h1 h2 h3 h4 h5]
  show ?thesis
    by (intro conjI h1 h2 h3 h4 k t[THEN conjunct1] t[THEN conjunct2, THEN conjunct1]
        t[THEN conjunct2, THEN conjunct2, THEN conjunct1]
        t[THEN conjunct2, THEN conjunct2, THEN conjunct2] run)
qed

text \<open>
  \<open>if self.pk\<close> lets an instance with the primary key 0 through: \<open>save\<close> overwrites a
  stored row of that key.
\<close>

lemma audit_save_pk_zero:
  "audit_save (ex_audit_row\<lparr>audit_pk := Some 0, audit_action := ''update''\<rparr>)
     [ex_audit_row\<lparr>audit_pk := Some 0\<rparr>] =
   (Inr (), [ex_audit_row\<lparr>audit_pk := Some 0, audit_action := ''update''\<rparr>])"
  by (simp add: audit_save_def model_save_def ex_audit_row_def)

section \<open>Properties of the task generators\<close>

subsection \<open>Keys and tasks\<close>

lemma task_exists_keys: "task_exists d k \<longleftrightarrow> k \<in> set (task_keys (tasks d))"
  by (auto simp: task_exists_def task_keys_def list_ex_iff map_filter_def intro!: image_eqI)

lemma task_keys_create:
  "task_keys (tasks (task_create t d)) =
     task_keys (tasks d) @ (case idempotency_key t of None \<Rightarrow> [] | Some k \<Rightarrow> [k])"
  by (simp add: task_create_def task_keys_def map_filter_def split: option.splits)

lemma task_create_distinct:
  "distinct (task_keys (tasks d)) \<Longrightarrow> idempotency_key t = Some k \<Longrightarrow> \<not> task_exists d k \<Longrightarrow>
   distinct (task_keys (tasks (task_create t d)))"
  by (simp add: task_keys_create task_exists_keys)

lemma task_create_frame [simp]:
  "clinics (task_create t d) = clinics d"
  "patients (task_create t d) = patients d"
  "call_events (task_create t d) = call_events d"
  "appointments (task_create t d) = appointments d"
  "treatment_plans (task_create t d) = treatment_plans d"
  "review_requests (task_create t d) = review_requests d"
  "tie_rank (task_create t d) = tie_rank d"
  by (simp_all add: task_create_def)

lemma tasks_save_is_processed [simp]: "tasks (save_is_processed c d) = tasks d"
  by (simp add: save_is_processed_def)

lemma task_exists_save [simp]: "task_exists (save_is_processed c d) k = task_exists d k"
  by (simp add: task_exists_def)

lemma task_exists_create:
  "task_exists (task_create t d) k \<longleftrightarrow> task_exists d k \<or> idempotency_key t = Some k"
  by (auto simp: task_exists_def task_create_def list_ex_iff)

lemma callback_task_key [simp]: "idempotency_key (callback_task cl p call k) = Some k"
  by (simp add: callback_task_def)

lemma filter_key_le_1:
  "distinct (task_keys ts) \<Longrightarrow> length (filter (\<lambda>t. idempotency_key t = Some k) ts) \<le> 1"
proof (induction ts)
  case Nil
  show ?case by simp
next
  case (Cons t ts)
  have tk: "task_keys (t # ts) =
      (case idempotency_key t of None \<Rightarrow> [] | Some k' \<Rightarrow> [k']) @ task_keys ts"
    by (simp add: task_keys_def map_filter_def split: option.splits)
  show ?case
  proof (cases "idempotency_key t = Some k")
    case True
    with Cons.prems have "k \<notin> set (task_keys ts)" by (simp add: tk)
    then have "filter (\<lambda>t. idempotency_key t = Some k) ts = []"
      by (auto simp: task_keys_def map_filter_def filter_empty_conv intro!: image_eqI)
    with True show ?thesis by simp
  next
    case False
    from Cons.prems have "distinct (task_keys ts)"
      by (simp add: tk split: option.splits)
    with Cons.IH False show ?thesis by simp
  qed
qed

subsection \<open>The callback generator\<close>

lemma grows_refl: "grows d d"
  by (simp add: grows_def list_all2_refl)

lemma freeze_freeze [simp]: "freeze (freeze c) = freeze c"
  by (simp add: freeze_def)

lemma grows_trans:
  assumes "grows a b" and "grows b c"
  shows "grows a c"
proof -
  have 1: "clinics c = clinics a" "patients c = patients a" "tie_rank c = tie_rank a"
    using assms by (simp_all add: grows_def)
  have 2: "\<forall>k. task_exists a k \<longrightarrow> task_exists c k"
    using assms by (simp add: grows_def)
  have ab: "list_all2 (\<lambda>c c'. c' = c \<or> c' = freeze c) (call_events a) (call_events b)"
    and bc: "list_all2 (\<lambda>c c'. c' = c \<or> c' = freeze c) (call_events b) (call_events c)"
    using assms by (simp_all add: grows_def)
  have 3: "list_all2 (\<lambda>c c'. c' = c \<or> c' = freeze c) (call_events a) (call_events c)"
    by (rule list_all2_trans[OF _ ab bc]) auto
  show ?thesis
    unfolding grows_def by (intro conjI 1 2 3)
qed

lemma grows_step: "grows d (save_is_processed call (task_create t d))"
  unfolding grows_def
  by (auto simp: task_exists_def list_ex_iff save_is_processed_def task_create_def
      list_all2_map2 freeze_def intro!: list_all2_refl)

lemma missed_call_loop_grows: "grows d (snd (missed_call_loop cl calls (n, d)))"
proof (induction calls arbitrary: n d)
  case Nil
  show ?case by (simp add: grows_refl)
next
  case (Cons call calls)
  show ?case
    by (auto simp: Let_def split: option.splits
        intro: Cons.IH grows_trans[OF grows_step Cons.IH])
qed

lemma settled_mono: "grows d d' \<Longrightarrow> settled d cl c \<Longrightarrow> settled d' cl c"
  by (auto simp: grows_def settled_def patient_by_phone_def)

lemma missed_call_loop_settled:
  "c \<in> set calls \<Longrightarrow> settled (snd (missed_call_loop cl calls (n, d))) cl c"
proof (induction calls arbitrary: n d)
  case Nil
  then show ?case by simp
next
  case (Cons call calls)
  show ?case
  proof (cases "c = call")
    case True
    have now: "task_exists d (callback_key call) \<Longrightarrow> settled d cl call"
      "patient_by_phone d cl (caller_phone call) = None \<Longrightarrow> settled d cl call"
      by (auto simp: settled_def)
    have new: "settled (save_is_processed call
                 (task_create (callback_task cl p call (callback_key call)) d)) cl call" for p
      by (simp add: settled_def task_exists_create)
    show ?thesis unfolding True
      by (auto simp: Let_def split: option.splits
          intro: settled_mono[OF missed_call_loop_grows now(1)]
                 settled_mono[OF missed_call_loop_grows now(2)]
                 settled_mono[OF missed_call_loop_grows new])
  next
    case False
    with Cons.prems have "c \<in> set calls" by simp
    then show ?thesis
      by (auto simp: Let_def split: option.splits intro: Cons.IH)
  qed
qed

lemma missed_call_loop_noop:
  "\<forall>c\<in>set calls. settled d cl c \<Longrightarrow> missed_call_loop cl calls (n, d) = (n, d)"
  by (induction calls) (auto simp: settled_def Let_def)

lemma grows_unprocessed:
  assumes "grows d d'" and "c' \<in> set (call_events d')" and "\<not> is_processed c'"
  shows "c' \<in> set (call_events d)"
proof -
  from assms(1) have l: "list_all2 (\<lambda>c c'. c' = c \<or> c' = freeze c) (call_events d) (call_events d')"
    by (simp add: grows_def)
  from assms(2) obtain i where i: "i < length (call_events d')" "c' = call_events d' ! i"
    by (auto simp: in_set_conv_nth)
  from l i have "c' = call_events d ! i \<or> c' = freeze (call_events d ! i)"
    by (simp add: list_all2_conv_all_nth)
  with assms(3) have "c' = call_events d ! i" by (auto simp: freeze_def)
  moreover from l i have "i < length (call_events d)" by (simp add: list_all2_conv_all_nth)
  ultimately show ?thesis by simp
qed

lemma missed_calls_subset:
  assumes "grows d d'"
  shows "set (missed_calls now cl d') \<subseteq> set (missed_calls now cl d)"
  using grows_unprocessed[OF assms] by (auto simp: missed_calls_def Let_def)

lemma clinic_loop_grows: "grows d (snd (clinic_loop now cls (n, d)))"
proof (induction cls arbitrary: n d)
  case Nil
  show ?case by (simp add: grows_refl)
next
  case (Cons cl cls)
  obtain n1 d1 where s: "missed_call_loop cl (missed_calls now cl d) (n, d) = (n1, d1)"
    by (cases "missed_call_loop cl (missed_calls now cl d) (n, d)")
  have "grows d d1" using missed_call_loop_grows[of d cl _ n] s by (metis snd_conv)
  with Cons.IH[of d1 n1] show ?case by (auto simp: s intro: grows_trans)
qed

lemma clinic_loop_settled:
  "cl \<in> set cls \<Longrightarrow> c \<in> set (missed_calls now cl (snd (clinic_loop now cls (n, d))))
     \<Longrightarrow> settled (snd (clinic_loop now cls (n, d))) cl c"
proof (induction cls arbitrary: n d)
  case Nil
  then show ?case by simp
next
  case (Cons cl' cls)
  obtain n1 d1 where s: "missed_call_loop cl' (missed_calls now cl' d) (n, d) = (n1, d1)"
    by (cases "missed_call_loop cl' (missed_calls now cl' d) (n, d)")
  let ?f = "snd (clinic_loop now cls (n1, d1))"
  have g1: "grows d d1" using missed_call_loop_grows[of d cl' _ n] s by (metis snd_conv)
  have g2: "grows d1 ?f" by (rule clinic_loop_grows)
  have fin: "snd (clinic_loop now (cl' # cls) (n, d)) = ?f" by (simp add: s)
  show ?case
  proof (cases "cl \<in> set cls")
    case True
    then show ?thesis using Cons.IH[of n1 d1] Cons.prems(2) unfolding fin by simp
  next
    case False
    with Cons.prems have e: "cl = cl'" by simp
    from Cons.prems(2) have "c \<in> set (missed_calls now cl' ?f)" unfolding fin e by simp
    then have "c \<in> set (missed_calls now cl' d)"
      using missed_calls_subset[OF grows_trans[OF g1 g2]] by blast
    then have "settled d1 cl' c"
      using missed_call_loop_settled[of c _ cl' n d] s by (metis snd_conv)
    then show ?thesis using settled_mono[OF g2] unfolding fin e by simp
  qed
qed

lemma clinic_loop_noop:
  "\<forall>cl\<in>set cls. \<forall>c\<in>set (missed_calls now cl d). settled d cl c
     \<Longrightarrow> clinic_loop now cls (n, d) = (n, d)"
  by (induction cls) (auto simp: missed_call_loop_noop)

lemma callback_idempotent:
  "generate_missed_call_tasks now (snd (generate_missed_call_tasks now d))
     = (0, snd (generate_missed_call_tasks now d))"
proof -
  let ?cls = "order_by clinic_name (\<lambda>c. tie_rank d Clinics (clinic_id c))
                (filter clinic_is_active (clinics d))"
  let ?d1 = "snd (clinic_loop now ?cls (0, d))"
  have "grows d ?d1" by (rule clinic_loop_grows)
  then have c: "clinics ?d1 = clinics d" "tie_rank ?d1 = tie_rank d"
    by (simp_all add: grows_def)
  have "clinic_loop now ?cls (0, ?d1) = (0, ?d1)"
    by (rule clinic_loop_noop) (auto intro: clinic_loop_settled)
  then show ?thesis by (simp add: generate_missed_call_tasks_def c)
qed

lemma missed_call_loop_distinct:
  "distinct (task_keys (tasks d)) \<Longrightarrow>
   distinct (task_keys (tasks (snd (missed_call_loop cl calls (n, d)))))"
proof (induction calls arbitrary: n d)
  case Nil
  then show ?case by simp
next
  case (Cons call calls)
  have step: "\<not> task_exists d (callback_key call) \<Longrightarrow>
      distinct (task_keys (tasks (save_is_processed call
         (task_create (callback_task cl p call (callback_key call)) d))))" for p
    using Cons.prems by (simp add: task_create_distinct)
  show ?case
    using Cons.prems
    by (auto simp: Let_def split: option.splits intro: Cons.IH Cons.IH[OF step])
qed

lemma clinic_loop_distinct:
  "distinct (task_keys (tasks d)) \<Longrightarrow>
   distinct (task_keys (tasks (snd (clinic_loop now cls (n, d)))))"
proof (induction cls arbitrary: n d)
  case Nil
  then show ?case by simp
next
  case (Cons cl cls)
  obtain n1 d1 where s: "missed_call_loop cl (missed_calls now cl d) (n, d) = (n1, d1)"
    by (cases "missed_call_loop cl (missed_calls now cl d) (n, d)")
  have "distinct (task_keys (tasks d1))"
    using missed_call_loop_distinct[OF Cons.prems, of cl _ n] s by (metis snd_conv)
  from Cons.IH[OF this, of n1] show ?case by (simp add: s)
qed

lemma callback_distinct:
  "distinct (task_keys (tasks d)) \<Longrightarrow>
   distinct (task_keys (tasks (snd (generate_missed_call_tasks now d))))"
  by (simp add: generate_missed_call_tasks_def clinic_loop_distinct)

subsection \<open>The recall generator\<close>

lemma recall_task_key [simp]: "idempotency_key (recall_task p k) = Some k"
  by (simp add: recall_task_def)

lemma recall_loop_facts:
  "clinics (snd (recall_loop now ps (n, d))) = clinics d \<and>
   patients (snd (recall_loop now ps (n, d))) = patients d \<and>
   tie_rank (snd (recall_loop now ps (n, d))) = tie_rank d \<and>
   (\<forall>k. task_exists d k \<longrightarrow> task_exists (snd (recall_loop now ps (n, d))) k) \<and>
   (\<forall>p\<in>set ps. task_exists (snd (recall_loop now ps (n, d))) (recall_key now p)) \<and>
   (distinct (task_keys (tasks d)) \<longrightarrow>
      distinct (task_keys (tasks (snd (recall_loop now ps (n, d))))))"
proof (induction ps arbitrary: n d)
  case Nil
  show ?case by simp
next
  case (Cons p ps)
  show ?case
  proof (cases "task_exists d (recall_key now p)")
    case True
    then show ?thesis using Cons.IH[of n d] by (simp add: Let_def)
  next
    case False
    let ?d = "task_create (recall_task p (recall_key now p)) d"
    have e: "task_exists ?d (recall_key now p)" by (simp add: task_exists_create)
    have m: "task_exists d k \<Longrightarrow> task_exists ?d k" for k by (simp add: task_exists_create)
    have dd: "distinct (task_keys (tasks d)) \<Longrightarrow> distinct (task_keys (tasks ?d))"
      using False by (simp add: task_create_distinct)
    from False Cons.IH[of "n + 1" ?d] e m dd show ?thesis by (simp add: Let_def)
  qed
qed

lemma recall_loop_noop:
  "\<forall>p\<in>set ps. task_exists d (recall_key now p) \<Longrightarrow> recall_loop now ps (n, d) = (n, d)"
  by (induction ps) (auto simp: Let_def)

lemma recall_idempotent:
  "generate_recall_tasks now (snd (generate_recall_tasks now d)) =
     (0, snd (generate_recall_tasks now d))"
proof -
  let ?ps = "recall_patients now d"
  let ?d1 = "snd (recall_loop now ?ps (0, d))"
  note f = recall_loop_facts[of now ?ps 0 d]
  have "clinic_active ?d1 = clinic_active d"
    using f by (simp add: clinic_active_def fun_eq_iff)
  then have same: "recall_patients now ?d1 = ?ps"
    using f by (simp add: recall_patients_def)
  have "recall_loop now ?ps (0, ?d1) = (0, ?d1)"
    using f by (intro recall_loop_noop) blast
  then show ?thesis by (simp add: generate_recall_tasks_def same)
qed

lemma recall_distinct:
  "distinct (task_keys (tasks d)) \<Longrightarrow>
   distinct (task_keys (tasks (snd (generate_recall_tasks now d))))"
  using recall_loop_facts[of now "recall_patients now d" 0 d]
  by (simp add: generate_recall_tasks_def)

subsection \<open>The treatment follow-up generator\<close>

lemma followup_task_key [simp]: "idempotency_key (followup_task plan t k) = Some k"
  by (simp add: followup_task_def)

lemma task_create_title_Inl:
  "task_create_title t d = Inl e \<longleftrightarrow> varchar 255 (title t) = Inl e"
  by (simp add: task_create_title_def split: sum.splits)

lemma task_create_title_Inr:
  "task_create_title t d = Inr d' \<longleftrightarrow>
     (\<exists>s. varchar 255 (title t) = Inr s \<and> d' = task_create (t\<lparr>title := s\<rparr>) d)"
  by (auto simp: task_create_title_def split: sum.splits)

lemma varchar_fits: "length s \<le> n \<Longrightarrow> varchar n s = Inr s"
  by (simp add: varchar_def)

text \<open>One turn of the loop: the plan is passed over, or the run stops, or a task is created.\<close>

lemma treatment_loop_step:
  obtains (skip) "task_exists d (treatment_key pl)"
      "treatment_loop (pl # plans) (n, d) = treatment_loop plans (n, d)"
    | (stop) e where "\<not> task_exists d (treatment_key pl)"
      "treatment_loop (pl # plans) (n, d) = (Inl e, d)"
      "\<And>m d2. \<not> task_exists d2 (treatment_key pl) \<Longrightarrow>
         treatment_loop (pl # plans) (m, d2) = (Inl e, d2)"
    | (create) t where "\<not> task_exists d (treatment_key pl)"
      "idempotency_key t = Some (treatment_key pl)"
      "treatment_loop (pl # plans) (n, d) = treatment_loop plans (n + 1, task_create t d)"
proof (cases "task_exists d (treatment_key pl)")
  case True
  show ?thesis by (intro skip) (simp_all add: Let_def True)
next
  case False
  show ?thesis
  proof (cases "sent_at pl")
    case None
    show ?thesis
      by (intro stop[of AttributeError]) (simp_all add: Let_def False None)
  next
    case (Some ts)
    let ?t = "followup_task pl ts (treatment_key pl)"
    show ?thesis
    proof (cases "varchar 255 (title ?t)")
      case (Inl e)
      then have tc: "task_create_title ?t d2 = Inl e" for d2
        by (simp add: task_create_title_Inl)
      show ?thesis
        by (intro stop[of e]) (simp_all add: Let_def tc False Some)
    next
      case (Inr s)
      then have tc: "task_create_title ?t d = Inr (task_create (?t\<lparr>title := s\<rparr>) d)"
        by (simp add: task_create_title_Inr)
      show ?thesis
        by (intro create[of "?t\<lparr>title := s\<rparr>"]) (simp_all add: Let_def tc False Some)
    qed
  qed
qed

lemma treatment_loop_facts:
  "clinics (snd (treatment_loop plans (n, d))) = clinics d \<and>
   patients (snd (treatment_loop plans (n, d))) = patients d \<and>
   treatment_plans (snd (treatment_loop plans (n, d))) = treatment_plans d \<and>
   tie_rank (snd (treatment_loop plans (n, d))) = tie_rank d \<and>
   (\<forall>k. task_exists d k \<longrightarrow> task_exists (snd (treatment_loop plans (n, d))) k) \<and>
   (distinct (task_keys (tasks d)) \<longrightarrow>
      distinct (task_keys (tasks (snd (treatment_loop plans (n, d))))))"
proof (induction plans arbitrary: n d)
  case Nil
  show ?case by simp
next
  case (Cons pl plans)
  show ?case
  proof (cases rule: treatment_loop_step[of d pl plans n])
    case skip
    show ?thesis unfolding skip(2) by (rule Cons.IH)
  next
    case (stop e)
    show ?thesis unfolding stop(2) by simp
  next
    case (create t)
    let ?d = "task_create t d"
    have m: "task_exists d k \<Longrightarrow> task_exists ?d k" for k
      by (simp add: task_exists_create)
    have dd: "distinct (task_keys (tasks d)) \<Longrightarrow> distinct (task_keys (tasks ?d))"
      using create(1,2) by (simp add: task_create_distinct)
    from Cons.IH[of "n + 1" ?d] m dd show ?thesis
      unfolding create(3) by simp
  qed
qed

text \<open>
  A run on a database that has the task keys the first run left passes every plan
  over, up to the plan at which the first run stopped, and stops there too.
\<close>

lemma treatment_loop_rerun:
  assumes "\<forall>k. task_exists d2 k = task_exists (snd (treatment_loop plans (n, d))) k"
  shows "treatment_loop plans (m, d2) =
           ((case fst (treatment_loop plans (n, d)) of Inl e \<Rightarrow> Inl e | Inr c \<Rightarrow> Inr m), d2)"
  using assms
proof (induction plans arbitrary: n d)
  case Nil
  show ?case by simp
next
  case (Cons pl plans)
  note mono = treatment_loop_facts[THEN conjunct2, THEN conjunct2, THEN conjunct2,
      THEN conjunct2, THEN conjunct1, rule_format]
  show ?case
  proof (cases rule: treatment_loop_step[of d pl plans n])
    case skip
    from Cons.prems have same: "\<forall>k. task_exists d2 k = task_exists (snd (treatment_loop plans (n, d))) k"
      unfolding skip(2) .
    have "task_exists (snd (treatment_loop plans (n, d))) (treatment_key pl)"
      using skip(1) by (rule mono)
    then have "task_exists d2 (treatment_key pl)"
      using same by simp
    then have "treatment_loop (pl # plans) (m, d2) = treatment_loop plans (m, d2)"
      by (simp add: Let_def)
    then show ?thesis
      unfolding skip(2) using Cons.IH[OF same] by simp
  next
    case (stop e)
    from Cons.prems have "\<not> task_exists d2 (treatment_key pl)"
      unfolding stop(2) using stop(1) by simp
    then have r: "treatment_loop (pl # plans) (m, d2) = (Inl e, d2)"
      by (rule stop(3))
    show ?thesis
      unfolding stop(2) r by simp
  next
    case (create t)
    let ?d = "task_create t d"
    from Cons.prems have same:
      "\<forall>k. task_exists d2 k = task_exists (snd (treatment_loop plans (n + 1, ?d))) k"
      unfolding create(3) .
    have "task_exists ?d (treatment_key pl)"
      using create(2) by (simp add: task_exists_create)
    then have "task_exists (snd (treatment_loop plans (n + 1, ?d))) (treatment_key pl)"
      by (rule mono)
    then have "task_exists d2 (treatment_key pl)"
      using same by simp
    then have "treatment_loop (pl # plans) (m, d2) = treatment_loop plans (m, d2)"
      by (simp add: Let_def)
    then show ?thesis
      unfolding create(3) using Cons.IH[OF same] by simp
  qed
qed

lemma treatment_loop_returns:
  assumes "\<forall>pl\<in>set plans. sent_at pl \<noteq> None \<and> length (plan_title pl) \<le> 226"
  shows "\<exists>c. fst (treatment_loop plans (n, d)) = Inr c"
  using assms
proof (induction plans arbitrary: n d)
  case Nil
  show ?case by simp
next
  case (Cons pl plans)
  from Cons.prems obtain ts where ts: "sent_at pl = Some ts" by auto
  let ?t = "followup_task pl ts (treatment_key pl)"
  from Cons.prems have "length (title ?t) \<le> 255"
    by (simp add: followup_task_def)
  then have "task_create_title ?t d = Inr (task_create ?t d)"
    by (simp add: task_create_title_def varchar_fits)
  then have "treatment_loop (pl # plans) (n, d) =
      (if task_exists d (treatment_key pl) then treatment_loop plans (n, d)
       else treatment_loop plans (n + 1, task_create ?t d))"
    by (simp add: Let_def ts)
  then show ?case
    using Cons.IH[of n d] Cons.IH[of "n + 1" "task_create ?t d"] Cons.prems by simp
qed

lemma followup_plans_sent: "\<forall>pl\<in>set (followup_plans now d). sent_at pl \<noteq> None"
  by (auto simp: followup_plans_def Let_def split: option.splits)

lemma followup_plans_subset: "set (followup_plans now d) \<subseteq> set (treatment_plans d)"
  by (auto simp: followup_plans_def Let_def)

lemma followup_plans_frame:
  assumes "clinics d' = clinics d" and "patients d' = patients d"
    and "treatment_plans d' = treatment_plans d" and "tie_rank d' = tie_rank d"
  shows "followup_plans now d' = followup_plans now d"
proof -
  have "clinic_active d' = clinic_active d"
    using assms by (simp add: clinic_active_def fun_eq_iff)
  moreover have "get_patient d' = get_patient d"
    using assms by (simp add: get_patient_def fun_eq_iff)
  ultimately show ?thesis using assms by (simp add: followup_plans_def)
qed

lemma treatment_idempotent:
  "generate_treatment_followup_tasks now (snd (generate_treatment_followup_tasks now d)) =
     ((case fst (generate_treatment_followup_tasks now d) of
         Inl e \<Rightarrow> Inl e
       | Inr c \<Rightarrow> Inr 0),
      snd (generate_treatment_followup_tasks now d))"
proof -
  let ?ps = "followup_plans now d"
  let ?d1 = "snd (treatment_loop ?ps (0, d))"
  note f = treatment_loop_facts[of ?ps 0 d]
  have same: "followup_plans now ?d1 = ?ps"
    using f by (intro followup_plans_frame) simp_all
  have "treatment_loop ?ps (0, ?d1) =
      ((case fst (treatment_loop ?ps (0, d)) of Inl e \<Rightarrow> Inl e | Inr c \<Rightarrow> Inr 0), ?d1)"
    by (rule treatment_loop_rerun) simp
  then show ?thesis
    by (simp add: generate_treatment_followup_tasks_def same)
qed

lemma treatment_distinct:
  "distinct (task_keys (tasks d)) \<Longrightarrow>
   distinct (task_keys (tasks (snd (generate_treatment_followup_tasks now d))))"
  using treatment_loop_facts[of "followup_plans now d" 0 d]
  by (simp add: generate_treatment_followup_tasks_def)

lemma treatment_returns:
  assumes "\<forall>pl\<in>set (treatment_plans d). length (plan_title pl) \<le> 226"
  shows "\<exists>c. fst (generate_treatment_followup_tasks now d) = Inr c"
  unfolding generate_treatment_followup_tasks_def
  using assms followup_plans_sent[of now d] followup_plans_subset[of now d]
  by (intro treatment_loop_returns) blast

text \<open>
  A plan whose title has 227 characters: the title of the task has 256, and the run
  stops with \<open>DataError\<close> at that plan.
\<close>

lemma ex_long_title:
  "fst (generate_treatment_followup_tasks (1709294400000000 + timedelta_days 7)
          (ex_db\<lparr>treatment_plans := [ex_plan\<lparr>plan_title := replicate 227 (CHR ''x'')\<rparr>]\<rparr>)) =
     Inl DataError \<and>
   tasks (snd (generate_treatment_followup_tasks (1709294400000000 + timedelta_days 7)
          (ex_db\<lparr>treatment_plans := [ex_plan\<lparr>plan_title := replicate 227 (CHR ''x'')\<rparr>]\<rparr>))) =
     [] \<and>
   map title (tasks (snd (generate_treatment_followup_tasks (1709294400000000 + timedelta_days 7)
          (ex_db\<lparr>treatment_plans := [ex_plan\<lparr>plan_title := replicate 226 (CHR ''x'')\<rparr>]\<rparr>)))) =
     [''Follow up on treatment plan: '' @ replicate 226 (CHR ''x'')]"
  by code_simp

subsection \<open>The review-request generator\<close>

lemma review_request_exists_create:
  "review_request_exists (review_request_create r d) k \<longleftrightarrow>
     review_request_exists d k \<or> rr_idempotency_key r = k"
  by (auto simp: review_request_exists_def review_request_create_def list_ex_iff)

lemma review_request_create_frame [simp]:
  "clinics (review_request_create r d) = clinics d"
  "patients (review_request_create r d) = patients d"
  "appointments (review_request_create r d) = appointments d"
  "tasks (review_request_create r d) = tasks d"
  "tie_rank (review_request_create r d) = tie_rank d"
  by (simp_all add: review_request_create_def)

lemma review_request_create_keys:
  "map rr_idempotency_key (review_requests (review_request_create r d)) =
     map rr_idempotency_key (review_requests d) @ [rr_idempotency_key r]"
  by (simp add: review_request_create_def)

lemma review_request_exists_keys:
  "review_request_exists d k \<longleftrightarrow> k \<in> set (map rr_idempotency_key (review_requests d))"
  by (auto simp: review_request_exists_def list_ex_iff)

text \<open>The request the loop creates for an appointment and its patient.\<close>

lemma review_loop_Cons:
  "review_loop now ((appt, p) # appts) (n, d) =
     (if \<not> (sms_consent p \<or> email_consent p) \<or> review_request_exists d (review_key appt)
      then review_loop now appts (n, d)
      else review_loop now appts
             (n + 1,
              review_request_create
                \<lparr>rr_id = 0, rr_clinic = appt_clinic appt, rr_patient = patient_id p,
                 rr_appointment = appt_id appt, rr_status = ''pending'',
                 channel = review_channel p, rr_scheduled_at = now,
                 rr_idempotency_key = review_key appt\<rparr> d))"
  by (simp add: Let_def)

lemma review_loop_facts:
  "clinics (snd (review_loop now xs (n, d))) = clinics d \<and>
   patients (snd (review_loop now xs (n, d))) = patients d \<and>
   appointments (snd (review_loop now xs (n, d))) = appointments d \<and>
   tie_rank (snd (review_loop now xs (n, d))) = tie_rank d \<and>
   (\<forall>k. review_request_exists d k \<longrightarrow> review_request_exists (snd (review_loop now xs (n, d))) k) \<and>
   (\<forall>(a, p)\<in>set xs. \<not> (sms_consent p \<or> email_consent p) \<or>
        review_request_exists (snd (review_loop now xs (n, d))) (review_key a)) \<and>
   (distinct (map rr_idempotency_key (review_requests d)) \<longrightarrow>
      distinct (map rr_idempotency_key (review_requests (snd (review_loop now xs (n, d))))))"
proof (induction xs arbitrary: n d)
  case Nil
  show ?case by simp
next
  case (Cons x xs)
  obtain appt p where x: "x = (appt, p)" by (cases x)
  show ?case
  proof (cases "\<not> (sms_consent p \<or> email_consent p) \<or> review_request_exists d (review_key appt)")
    case True
    then have "review_loop now (x # xs) (n, d) = review_loop now xs (n, d)"
      unfolding x review_loop_Cons by simp
    with True Cons.IH[of n d] show ?thesis by (auto simp: x)
  next
    case False
    let ?r = "\<lparr>rr_id = 0, rr_clinic = appt_clinic appt, rr_patient = patient_id p,
                 rr_appointment = appt_id appt, rr_status = ''pending'',
                 channel = review_channel p, rr_scheduled_at = now,
                 rr_idempotency_key = review_key appt\<rparr>"
    let ?d = "review_request_create ?r d"
    from False have run: "review_loop now (x # xs) (n, d) = review_loop now xs (n + 1, ?d)"
      unfolding x review_loop_Cons by simp
    have e: "review_request_exists ?d (review_key appt)"
      by (simp add: review_request_exists_create)
    have m: "review_request_exists d k \<Longrightarrow> review_request_exists ?d k" for k
      by (simp add: review_request_exists_create)
    have dd: "distinct (map rr_idempotency_key (review_requests d)) \<Longrightarrow>
              distinct (map rr_idempotency_key (review_requests ?d))"
      using False by (simp add: review_request_create_keys review_request_exists_keys)
    from Cons.IH[of "n + 1" ?d] e m dd show ?thesis
      unfolding run by (auto simp: x)
  qed
qed

lemma review_loop_noop:
  "\<forall>(a, p)\<in>set xs. \<not> (sms_consent p \<or> email_consent p) \<or>
       review_request_exists d (review_key a) \<Longrightarrow>
   review_loop now xs (n, d) = (n, d)"
  by (induction xs) (auto simp: Let_def)

lemma review_appointments_frame:
  assumes "clinics d' = clinics d" and "patients d' = patients d"
    and "appointments d' = appointments d" and "tie_rank d' = tie_rank d"
  shows "review_appointments now d' = review_appointments now d"
proof -
  have "clinic_active d' = clinic_active d"
    using assms by (simp add: clinic_active_def fun_eq_iff)
  moreover have "get_patient d' = get_patient d"
    using assms by (simp add: get_patient_def fun_eq_iff)
  ultimately show ?thesis using assms by (simp add: review_appointments_def)
qed

lemma review_idempotent:
  "generate_review_request_tasks now (snd (generate_review_request_tasks now d)) =
     (0, snd (generate_review_request_tasks now d))"
proof -
  let ?xs = "review_appointments now d"
  let ?d1 = "snd (review_loop now ?xs (0, d))"
  note f = review_loop_facts[of now ?xs 0 d]
  have same: "review_appointments now ?d1 = ?xs"
    using f by (intro review_appointments_frame) simp_all
  have "review_loop now ?xs (0, ?d1) = (0, ?d1)"
    using f by (intro review_loop_noop) blast
  then show ?thesis by (simp add: generate_review_request_tasks_def same)
qed

lemma review_distinct:
  "distinct (map rr_idempotency_key (review_requests d)) \<Longrightarrow>
   distinct (map rr_idempotency_key
               (review_requests (snd (generate_review_request_tasks now d))))"
  using review_loop_facts[of now "review_appointments now d" 0 d]
  by (simp add: generate_review_request_tasks_def)

text \<open>
  Claim C1. For each of the four generators, a second run at the same clock reading
  on the database the first run left creates nothing and changes nothing: it returns
  the count 0 (the treatment follow-up generator, when its first run stopped with an
  exception at a plan, stops with that exception again, having created nothing). Two
  runs at any two clock readings (two windows, overlapping or not) leave the
  idempotency keys of the action records pairwise distinct, when they were distinct
  before, as the unique constraint on the key column guarantees. When every plan
  title has at most 226 characters, the treatment follow-up generator returns a
  count.
\<close>

theorem generators_idempotent:
  assumes "distinct (task_keys (tasks d))"
    and "distinct (map rr_idempotency_key (review_requests d))"
  shows "generate_missed_call_tasks now (snd (generate_missed_call_tasks now d)) =
           (0, snd (generate_missed_call_tasks now d)) \<and>
         generate_review_request_tasks now (snd (generate_review_request_tasks now d)) =
           (0, snd (generate_review_request_tasks now d)) \<and>
         generate_treatment_followup_tasks now (snd (generate_treatment_followup_tasks now d)) =
           ((case fst (generate_treatment_followup_tasks now d) of
               Inl e \<Rightarrow> Inl e
             | Inr c \<Rightarrow> Inr 0),
            snd (generate_treatment_followup_tasks now d)) \<and>
         generate_recall_tasks now (snd (generate_recall_tasks now d)) =
           (0, snd (generate_recall_tasks now d)) \<and>
         distinct (task_keys (tasks (snd (generate_missed_call_tasks now'
                     (snd (generate_missed_call_tasks now d)))))) \<and>
         distinct (map rr_idempotency_key (review_requests
                     (snd (generate_review_request_tasks now'
                        (snd (generate_review_request_tasks now d)))))) \<and>
         distinct (task_keys (tasks (snd (generate_treatment_followup_tasks now'
                     (snd (generate_treatment_followup_tasks now d)))))) \<and>
         distinct (task_keys (tasks (snd (generate_recall_tasks now'
                     (snd (generate_recall_tasks now d)))))) \<and>
         ((\<forall>pl\<in>set (treatment_plans d). length (plan_title pl) \<le> 226) \<longrightarrow>
            (\<exists>c. fst (generate_treatment_followup_tasks now d) = Inr c))"
  by (intro conjI impI callback_idempotent review_idempotent treatment_idempotent
      recall_idempotent callback_distinct review_distinct treatment_distinct recall_distinct
      treatment_returns assms)

theorem generators_idempotent_witness:
  "distinct (task_keys (tasks ex_db)) \<and>
   distinct (map rr_idempotency_key (review_requests ex_db)) \<and>
   generate_missed_call_tasks ex_now (snd (generate_missed_call_tasks ex_now ex_db)) =
     (0, snd (generate_missed_call_tasks ex_now ex_db)) \<and>
   generate_review_request_tasks ex_now (snd (generate_review_request_tasks ex_now ex_db)) =
     (0, snd (generate_review_request_tasks ex_now ex_db)) \<and>
   generate_treatment_followup_tasks ex_now
       (snd (generate_treatment_followup_tasks ex_now ex_db)) =
     ((case fst (generate_treatment_followup_tasks ex_now ex_db) of
         Inl e \<Rightarrow> Inl e
       | Inr c \<Rightarrow> Inr 0),
      snd (generate_treatment_followup_tasks ex_now ex_db)) \<and>
   generate_recall_tasks ex_now (snd (generate_recall_tasks ex_now ex_db)) =
     (0, snd (generate_recall_tasks ex_now ex_db)) \<and>
   distinct (task_keys (tasks (snd (generate_missed_call_tasks (ex_now + timedelta_hours 1)
               (snd (generate_missed_call_tasks ex_now ex_db)))))) \<and>
   distinct (map rr_idempotency_key (review_requests
               (snd (generate_review_request_tasks (ex_now + timedelta_hours 1)
                  (snd (generate_review_request_tasks ex_now ex_db)))))) \<and>
   distinct (task_keys (tasks (snd (generate_treatment_followup_tasks (ex_now + timedelta_hours 1)
               (snd (generate_treatment_followup_tasks ex_now ex_db)))))) \<and>
   distinct (task_keys (tasks (snd (generate_recall_tasks (ex_now + timedelta_hours 1)
               (snd (generate_recall_tasks ex_now ex_db)))))) \<and>
   treatment_plans ex_db = [ex_plan] \<and> length (plan_title ex_plan) \<le> 226 \<and>
   (\<exists>c. fst (generate_treatment_followup_tasks ex_now ex_db) = Inr c) \<and>
   fst (generate_treatment_followup_tasks ex_now ex_db) = Inr 1 \<and>
   task_keys (tasks (snd (generate_treatment_followup_tasks ex_now ex_db))) =
     [''treatment_followup_1'']"
proof -
  have h1: "distinct (task_keys (tasks ex_db))"
    by (simp add: ex_db_def task_keys_def map_filter_def)
  have h2: "distinct (map rr_idempotency_key (review_requests ex_db))"
    by (simp add: ex_db_def)
  have p: "treatment_plans ex_db = [ex_plan]" "length (plan_title ex_plan) \<le> 226"
    by (simp_all add: ex_db_def ex_plan_def)
  then have h3: "\<forall>pl\<in>set (treatment_plans ex_db). length (plan_title pl) \<le> 226"
    by simp
  have run: "fst (generate_treatment_followup_tasks ex_now ex_db) = Inr 1"
    "task_keys (tasks (snd (generate_treatment_followup_tasks ex_now ex_db))) =
       [''treatment_followup_1'']"
    by code_simp+
  note t = generators_idempotent[OF h1 h2, of ex_now "ex_now + timedelta_hours 1"]
  show ?thesis
    by (intro conjI h1 h2 p run t[THEN conjunct1] t[THEN conjunct2, THEN conjunct1]
        t[THEN conjunct2, THEN conjunct2, THEN conjunct1]
        t[THEN conjunct2, THEN conjunct2, THEN conjunct2, THEN conjunct1]
        t[THEN conjunct2, THEN conjunct2, THEN conjunct2, THEN conjunct2, THEN conjunct1]
        t[THEN conjunct2, THEN conjunct2, THEN conjunct2, THEN conjunct2, THEN conjunct2,
          THEN conjunct1]
        t[THEN conjunct2, THEN conjunct2, THEN conjunct2, THEN conjunct2, THEN conjunct2,
          THEN conjunct2, THEN conjunct1]
        t[THEN conjunct2, THEN conjunct2, THEN conjunct2, THEN conjunct2, THEN conjunct2,
          THEN conjunct2, THEN conjunct2, THEN conjunct1]
        t[THEN conjunct2, THEN conjunct2, THEN conjunct2, THEN conjunct2, THEN conjunct2,
          THEN conjunct2, THEN conjunct2, THEN conjunct2, THEN mp, OF h3])
qed

subsection \<open>What the review-request generator creates\<close>

lemma review_loop_new:
  "\<exists>new. review_requests (snd (review_loop now xs (n, d))) = review_requests d @ new \<and>
         fst (review_loop now xs (n, d)) = n + length new \<and>
         (\<forall>r\<in>set new. \<exists>(a, p)\<in>set xs.
             (sms_consent p \<or> email_consent p) \<and> rr_appointment r = appt_id a \<and>
             rr_patient r = patient_id p \<and> channel r = review_channel p \<and>
             rr_idempotency_key r = review_key a)"
proof (induction xs arbitrary: n d)
  case Nil
  show ?case by simp
next
  case (Cons x xs)
  obtain appt p where x: "x = (appt, p)" by (cases x)
  show ?case
  proof (cases "\<not> (sms_consent p \<or> email_consent p) \<or> review_request_exists d (review_key appt)")
    case True
    then have run: "review_loop now (x # xs) (n, d) = review_loop now xs (n, d)"
      unfolding x review_loop_Cons by simp
    from Cons.IH[of n d] obtain new where
      "review_requests (snd (review_loop now xs (n, d))) = review_requests d @ new"
      "fst (review_loop now xs (n, d)) = n + length new"
      "\<forall>r\<in>set new. \<exists>(a, p)\<in>set xs.
             (sms_consent p \<or> email_consent p) \<and> rr_appointment r = appt_id a \<and>
             rr_patient r = patient_id p \<and> channel r = review_channel p \<and>
             rr_idempotency_key r = review_key a"
      by blast
    then show ?thesis unfolding run
      by (intro exI[of _ new]) fastforce
  next
    case False
    let ?r = "\<lparr>rr_id = 0, rr_clinic = appt_clinic appt, rr_patient = patient_id p,
                 rr_appointment = appt_id appt, rr_status = ''pending'',
                 channel = review_channel p, rr_scheduled_at = now,
                 rr_idempotency_key = review_key appt\<rparr>"
    let ?r' = "?r\<lparr>rr_id := next_pk (map rr_id (review_requests d))\<rparr>"
    let ?d = "review_request_create ?r d"
    from False have run: "review_loop now (x # xs) (n, d) = review_loop now xs (n + 1, ?d)"
      unfolding x review_loop_Cons by simp
    have rd: "review_requests ?d = review_requests d @ [?r']"
      by (simp add: review_request_create_def)
    from Cons.IH[of "n + 1" ?d] obtain new where new:
      "review_requests (snd (review_loop now xs (n + 1, ?d))) = review_requests ?d @ new"
      "fst (review_loop now xs (n + 1, ?d)) = n + 1 + length new"
      "\<forall>r\<in>set new. \<exists>(a, p)\<in>set xs.
             (sms_consent p \<or> email_consent p) \<and> rr_appointment r = appt_id a \<and>
             rr_patient r = patient_id p \<and> channel r = review_channel p \<and>
             rr_idempotency_key r = review_key a"
      by blast
    have hd: "\<exists>(a, p)\<in>set (x # xs).
             (sms_consent p \<or> email_consent p) \<and> rr_appointment ?r' = appt_id a \<and>
             rr_patient ?r' = patient_id p \<and> channel ?r' = review_channel p \<and>
             rr_idempotency_key ?r' = review_key a"
      using False by (auto simp: x)
    have tl: "\<forall>r\<in>set new. \<exists>(a, p)\<in>set (x # xs).
             (sms_consent p \<or> email_consent p) \<and> rr_appointment r = appt_id a \<and>
             rr_patient r = patient_id p \<and> channel r = review_channel p \<and>
             rr_idempotency_key r = review_key a"
      using new(3) by fastforce
    show ?thesis unfolding run
      using new(1,2) hd tl
      by (intro exI[of _ "?r' # new"]) (simp add: rd)
  qed
qed

lemma review_appointments_mem:
  assumes "(a, p) \<in> set (review_appointments now d)"
  shows "a \<in> set (appointments d) \<and> p \<in> set (patients d) \<and> appt_patient a = patient_id p \<and>
         appt_status a = ''completed'' \<and> clinic_active d (appt_clinic a) \<and>
         now - timedelta_hours 24 - timedelta_hours 1 \<le> appt_scheduled_at a \<and>
         appt_scheduled_at a \<le> now - timedelta_hours 24 + timedelta_hours 1"
proof -
  from assms have "a \<in> set (appointments d) \<and> get_patient d (appt_patient a) = Some p \<and>
         appt_status a = ''completed'' \<and> clinic_active d (appt_clinic a) \<and>
         now - timedelta_hours 24 - timedelta_hours 1 \<le> appt_scheduled_at a \<and>
         appt_scheduled_at a \<le> now - timedelta_hours 24 + timedelta_hours 1"
    by (auto simp: review_appointments_def Let_def map_filter_def)
  moreover have "get_patient d (appt_patient a) = Some p \<Longrightarrow>
      p \<in> set (patients d) \<and> appt_patient a = patient_id p"
    by (auto simp: get_patient_def find_Some_iff in_set_conv_nth)
  ultimately show ?thesis by blast
qed

text \<open>
  Claim C8. Every review request that a run of the generator creates belongs to an
  appointment with status \<open>completed\<close> whose time lies within one hour of 24 hours
  before the run, and to that appointment's patient, who has sms or email consent;
  its channel is \<open>sms\<close> when the patient has sms consent and \<open>email\<close> otherwise. No
  request is created for a patient who has neither consent. Patients have distinct
  primary keys.
\<close>

theorem review_requests_created:
  assumes "distinct (map patient_id (patients d))"
  shows "\<exists>new. review_requests (snd (generate_review_request_tasks now d)) =
                  review_requests d @ new \<and>
           fst (generate_review_request_tasks now d) = length new \<and>
           (\<forall>r\<in>set new. \<exists>a p.
               a \<in> set (appointments d) \<and> p \<in> set (patients d) \<and>
               appt_patient a = patient_id p \<and>
               rr_appointment r = appt_id a \<and> rr_patient r = patient_id p \<and>
               appt_status a = ''completed'' \<and>
               now - timedelta_hours 24 - timedelta_hours 1 \<le> appt_scheduled_at a \<and>
               appt_scheduled_at a \<le> now - timedelta_hours 24 + timedelta_hours 1 \<and>
               (sms_consent p \<or> email_consent p) \<and>
               channel r = (if sms_consent p then ''sms'' else ''email'')) \<and>
           (\<forall>r\<in>set new. \<forall>q\<in>set (patients d).
               patient_id q = rr_patient r \<longrightarrow> sms_consent q \<or> email_consent q)"
proof -
  from review_loop_new[of now "review_appointments now d" 0 d] obtain new where new:
    "review_requests (snd (generate_review_request_tasks now d)) = review_requests d @ new"
    "fst (generate_review_request_tasks now d) = length new"
    "\<forall>r\<in>set new. \<exists>(a, p)\<in>set (review_appointments now d).
             (sms_consent p \<or> email_consent p) \<and> rr_appointment r = appt_id a \<and>
             rr_patient r = patient_id p \<and> channel r = review_channel p \<and>
             rr_idempotency_key r = review_key a"
    unfolding generate_review_request_tasks_def by auto
  have each: "\<exists>a p.
               a \<in> set (appointments d) \<and> p \<in> set (patients d) \<and>
               appt_patient a = patient_id p \<and>
               rr_appointment r = appt_id a \<and> rr_patient r = patient_id p \<and>
               appt_status a = ''completed'' \<and>
               now - timedelta_hours 24 - timedelta_hours 1 \<le> appt_scheduled_at a \<and>
               appt_scheduled_at a \<le> now - timedelta_hours 24 + timedelta_hours 1 \<and>
               (sms_consent p \<or> email_consent p) \<and>
               channel r = (if sms_consent p then ''sms'' else ''email'')"
    if "r \<in> set new" for r
  proof -
    from new(3) that obtain a p where ap: "(a, p) \<in> set (review_appointments now d)"
      "sms_consent p \<or> email_consent p" "rr_appointment r = appt_id a"
      "rr_patient r = patient_id p" "channel r = review_channel p"
      by blast
    from review_appointments_mem[OF ap(1)] ap(2-5) show ?thesis
      unfolding review_channel_def by blast
  qed
  have inj: "inj_on patient_id (set (patients d))"
    using assms by (simp add: distinct_map)
  have none: "sms_consent q \<or> email_consent q"
    if "r \<in> set new" "q \<in> set (patients d)" "patient_id q = rr_patient r" for r q
  proof -
    from each[OF that(1)] obtain p where p: "p \<in> set (patients d)"
      "rr_patient r = patient_id p" "sms_consent p \<or> email_consent p"
      by blast
    with that(2,3) inj have "q = p" by (auto simp: inj_on_def)
    with p(3) show ?thesis by simp
  qed
  show ?thesis
    using new(1,2) each none by (intro exI[of _ new]) blast
qed

theorem review_requests_created_witness:
  "distinct (map patient_id (patients ex_db)) \<and>
   (\<exists>new. review_requests (snd (generate_review_request_tasks ex_now ex_db)) =
             review_requests ex_db @ new \<and>
      fst (generate_review_request_tasks ex_now ex_db) = length new \<and>
      (\<forall>r\<in>set new. \<exists>a p.
          a \<in> set (appointments ex_db) \<and> p \<in> set (patients ex_db) \<and>
          appt_patient a = patient_id p \<and>
          rr_appointment r = appt_id a \<and> rr_patient r = patient_id p \<and>
          appt_status a = ''completed'' \<and>
          ex_now - timedelta_hours 24 - timedelta_hours 1 \<le> appt_scheduled_at a \<and>
          appt_scheduled_at a \<le> ex_now - timedelta_hours 24 + timedelta_hours 1 \<and>
          (sms_consent p \<or> email_consent p) \<and>
          channel r = (if sms_consent p then ''sms'' else ''email'')) \<and>
      (\<forall>r\<in>set new. \<forall>q\<in>set (patients ex_db).
          patient_id q = rr_patient r \<longrightarrow> sms_consent q \<or> email_consent q)) \<and>
   map channel (review_requests (snd (generate_review_request_tasks ex_now ex_db))) = [''email'']"
proof -
  have h: "distinct (map patient_id (patients ex_db))"
    by (simp add: ex_db_def)
  have c: "map channel (review_requests (snd (generate_review_request_tasks ex_now ex_db))) =
           [''email'']"
    by code_simp
  from review_requests_created[OF h, of ex_now] h c show ?thesis
    by (intro conjI)
qed

subsection \<open>The callback generator on one missed call\<close>

lemma freeze_fields [simp]:
  "call_id (freeze c) = call_id c" "call_sid (freeze c) = call_sid c"
  "is_processed (freeze c)" "callback_key (freeze c) = callback_key c"
  by (simp_all add: freeze_def callback_key_def)

lemma freeze_processed: "is_processed c \<Longrightarrow> freeze c = c"
  by (cases c) (simp add: freeze_def)

lemma grows_rows:
  assumes "grows d0 d"
  shows "c \<in> set (call_events d0) \<Longrightarrow> c \<in> set (call_events d) \<or> freeze c \<in> set (call_events d)"
    and "r \<in> set (call_events d) \<Longrightarrow> \<exists>r0\<in>set (call_events d0). r = r0 \<or> r = freeze r0"
    and "map call_id (call_events d) = map call_id (call_events d0)"
proof -
  from assms have l: "list_all2 (\<lambda>c c'. c' = c \<or> c' = freeze c) (call_events d0) (call_events d)"
    by (simp add: grows_def)
  then have len: "length (call_events d0) = length (call_events d)"
    by (rule list_all2_lengthD)
  have nth: "i < length (call_events d) \<Longrightarrow>
      call_events d ! i = call_events d0 ! i \<or> call_events d ! i = freeze (call_events d0 ! i)" for i
    using l by (simp add: list_all2_conv_all_nth)
  show "c \<in> set (call_events d) \<or> freeze c \<in> set (call_events d)"
    if "c \<in> set (call_events d0)"
  proof -
    from that obtain i where i: "i < length (call_events d0)" "call_events d0 ! i = c"
      by (auto simp: in_set_conv_nth)
    with nth[of i] len have "call_events d ! i = c \<or> call_events d ! i = freeze c" by simp
    with i len show ?thesis by (metis nth_mem)
  qed
  show "\<exists>r0\<in>set (call_events d0). r = r0 \<or> r = freeze r0" if "r \<in> set (call_events d)"
  proof -
    from that obtain i where i: "i < length (call_events d)" "call_events d ! i = r"
      by (auto simp: in_set_conv_nth)
    with nth[of i] len have "r = call_events d0 ! i \<or> r = freeze (call_events d0 ! i)" by simp
    with i len show ?thesis by (metis nth_mem)
  qed
  show "map call_id (call_events d) = map call_id (call_events d0)"
  proof (rule nth_equalityI)
    show "length (map call_id (call_events d)) = length (map call_id (call_events d0))"
      using len by simp
  next
    fix i assume "i < length (map call_id (call_events d))"
    then have i: "i < length (call_events d)" by simp
    with nth[of i] have "call_id (call_events d ! i) = call_id (call_events d0 ! i)" by auto
    with i len show "map call_id (call_events d) ! i = map call_id (call_events d0) ! i"
      by simp
  qed
qed

lemma distinct_id_eq:
  "distinct (map call_id xs) \<Longrightarrow> x \<in> set xs \<Longrightarrow> y \<in> set xs \<Longrightarrow> call_id x = call_id y \<Longrightarrow> x = y"
  by (auto simp: distinct_map inj_on_def)

lemma distinct_sid_eq:
  "distinct (map call_sid xs) \<Longrightarrow> x \<in> set xs \<Longrightarrow> y \<in> set xs \<Longrightarrow> call_sid x = call_sid y \<Longrightarrow> x = y"
  by (auto simp: distinct_map inj_on_def)

lemma save_rows:
  "c' \<in> set (call_events (save_is_processed call d)) \<Longrightarrow>
   \<exists>r\<in>set (call_events d). c' = r \<or> (c' = freeze r \<and> call_id r = call_id call)"
  by (auto simp: save_is_processed_def freeze_def)

lemma save_keeps_processed:
  "is_processed x \<Longrightarrow> x \<in> set (call_events d) \<Longrightarrow> x \<in> set (call_events (save_is_processed call d))"
proof -
  assume p: "is_processed x" and m: "x \<in> set (call_events d)"
  have "(if call_id x = call_id call then x\<lparr>is_processed := True\<rparr> else x) = x"
    using freeze_processed[OF p] by (simp add: freeze_def)
  with m show ?thesis
    unfolding save_is_processed_def by (force simp: image_iff)
qed

lemma save_freezes:
  assumes "r \<in> set (call_events d)" and "call_id r = call_id call"
  shows "freeze r \<in> set (call_events (save_is_processed call d))"
  using assms unfolding save_is_processed_def by (force simp: image_iff freeze_def)

lemma callback_inv_refl: "callback_inv d d"
  by (simp add: callback_inv_def grows_refl)

lemma callback_inv_step:
  assumes inv: "callback_inv d0 d"
    and ids: "distinct (map call_id (call_events d0))"
    and call: "call \<in> set (call_events d0)"
  shows "callback_inv d0
           (save_is_processed call (task_create (callback_task cl p call (callback_key call)) d))"
proof -
  let ?t = "callback_task cl p call (callback_key call)"
  let ?d1 = "task_create ?t d"
  let ?d2 = "save_is_processed call ?d1"
  from inv have g: "grows d0 d" by (simp add: callback_inv_def)
  from inv obtain new where new: "tasks d = tasks d0 @ new"
    "\<forall>t\<in>set new. task_type t = ''callback'' \<and> priority t = 2 \<and>
       (\<exists>call\<in>set (call_events d0).
          idempotency_key t = Some (callback_key call) \<and>
          source_id t = Some (call_id call) \<and>
          freeze call \<in> set (call_events d))"
    unfolding callback_inv_def by blast
  from inv have rows: "\<forall>c\<in>set (call_events d).
      c \<in> set (call_events d0) \<or> task_exists d (callback_key c)"
    by (simp add: callback_inv_def)
  have g2: "grows d0 ?d2" by (rule grows_trans[OF g grows_step])
  have same_id: "freeze r = freeze call"
    if "r \<in> set (call_events d)" "call_id r = call_id call" for r
  proof -
    from grows_rows(2)[OF g that(1)] obtain r0 where
      r0: "r0 \<in> set (call_events d0)" "r = r0 \<or> r = freeze r0" by blast
    then have "call_id r0 = call_id call" using that(2) by auto
    with distinct_id_eq[OF ids r0(1) call] have "r0 = call" by simp
    with r0(2) show ?thesis by auto
  qed
  have fz: "freeze call \<in> set (call_events ?d2)"
  proof -
    from grows_rows(1)[OF g call] obtain r where
      r: "r \<in> set (call_events d)" "r = call \<or> r = freeze call" by blast
    then have "call_id r = call_id call" by auto
    from save_freezes[of r ?d1 call] r this have "freeze r \<in> set (call_events ?d2)" by simp
    with r(2) show ?thesis by auto
  qed
  let ?t' = "?t\<lparr>task_id := next_pk (map task_id (tasks d))\<rparr>"
  have tasks2: "tasks ?d2 = tasks d0 @ (new @ [?t'])"
    by (simp add: task_create_def new(1))
  have old_ok: "task_type t = ''callback'' \<and> priority t = 2 \<and>
       (\<exists>call\<in>set (call_events d0).
          idempotency_key t = Some (callback_key call) \<and>
          source_id t = Some (call_id call) \<and>
          freeze call \<in> set (call_events ?d2))" if "t \<in> set new" for t
  proof -
    from new(2) that obtain c0 where c0: "task_type t = ''callback''" "priority t = 2"
      "c0 \<in> set (call_events d0)" "idempotency_key t = Some (callback_key c0)"
      "source_id t = Some (call_id c0)" "freeze c0 \<in> set (call_events d)"
      by blast
    have "freeze c0 \<in> set (call_events ?d2)"
      using save_keeps_processed[of "freeze c0" ?d1 call] c0(6) by simp
    with c0 show ?thesis by blast
  qed
  have new_ok: "task_type ?t' = ''callback'' \<and> priority ?t' = 2 \<and>
       (\<exists>c0\<in>set (call_events d0).
          idempotency_key ?t' = Some (callback_key c0) \<and>
          source_id ?t' = Some (call_id c0) \<and>
          freeze c0 \<in> set (call_events ?d2))"
    using call fz by (auto simp: callback_task_def)
  have all_new: "\<forall>t\<in>set (new @ [?t']). task_type t = ''callback'' \<and> priority t = 2 \<and>
       (\<exists>call\<in>set (call_events d0).
          idempotency_key t = Some (callback_key call) \<and>
          source_id t = Some (call_id call) \<and>
          freeze call \<in> set (call_events ?d2))"
    using old_ok new_ok by auto
  have rows2: "c' \<in> set (call_events d0) \<or> task_exists ?d2 (callback_key c')"
    if "c' \<in> set (call_events ?d2)" for c'
  proof -
    from save_rows[OF that] obtain r where
      r: "r \<in> set (call_events d)" "c' = r \<or> (c' = freeze r \<and> call_id r = call_id call)"
      by auto
    from r(2) show ?thesis
    proof
      assume "c' = r"
      with rows r(1) show ?thesis by (auto simp: task_exists_create)
    next
      assume a: "c' = freeze r \<and> call_id r = call_id call"
      with same_id[OF r(1)] have "c' = freeze call" by simp
      then show ?thesis by (simp add: task_exists_create)
    qed
  qed
  show ?thesis
    unfolding callback_inv_def using g2 tasks2 all_new rows2 by blast
qed

lemma missed_call_loop_inv:
  assumes "callback_inv d0 d" and "distinct (map call_id (call_events d0))"
    and "\<forall>call\<in>set calls. call \<in> set (call_events d0)"
  shows "callback_inv d0 (snd (missed_call_loop cl calls (n, d)))"
  using assms
proof (induction calls arbitrary: n d)
  case Nil
  then show ?case by simp
next
  case (Cons call calls)
  from Cons.prems(3) have c: "call \<in> set (call_events d0)"
    and rest: "\<forall>call\<in>set calls. call \<in> set (call_events d0)" by simp_all
  note step = callback_inv_step[OF Cons.prems(1,2) c]
  show ?case
    by (auto simp: Let_def split: option.splits
        intro: Cons.IH[OF Cons.prems(1,2) rest] Cons.IH[OF step Cons.prems(2) rest])
qed

lemma clinic_loop_inv:
  assumes "callback_inv d0 d" and "distinct (map call_id (call_events d0))"
  shows "callback_inv d0 (snd (clinic_loop now cls (n, d)))"
  using assms
proof (induction cls arbitrary: n d)
  case Nil
  then show ?case by simp
next
  case (Cons cl cls)
  obtain n1 d1 where s: "missed_call_loop cl (missed_calls now cl d) (n, d) = (n1, d1)"
    by (cases "missed_call_loop cl (missed_calls now cl d) (n, d)")
  from Cons.prems(1) have g: "grows d0 d" by (simp add: callback_inv_def)
  have "\<forall>call\<in>set (missed_calls now cl d). call \<in> set (call_events d0)"
    using grows_unprocessed[OF g] by (auto simp: missed_calls_def Let_def)
  from missed_call_loop_inv[OF Cons.prems(1,2) this, of cl n] s
  have "callback_inv d0 d1" by simp
  from Cons.IH[OF this Cons.prems(2), of n1] show ?case by (simp add: s)
qed

lemma missed_call_loop_count:
  "fst (missed_call_loop cl calls (n, d)) + length (tasks d) =
   n + length (tasks (snd (missed_call_loop cl calls (n, d))))"
proof (induction calls arbitrary: n d)
  case Nil
  show ?case by simp
next
  case (Cons call calls)
  have len: "length (tasks (task_create t d)) = Suc (length (tasks d))" for t
    by (simp add: task_create_def)
  show ?case
    using Cons.IH[of n d]
      Cons.IH[of "n + 1" "save_is_processed call (task_create t d)" for t]
    by (auto simp: Let_def len split: option.splits)
qed

lemma clinic_loop_count:
  "fst (clinic_loop now cls (n, d)) + length (tasks d) =
   n + length (tasks (snd (clinic_loop now cls (n, d))))"
proof (induction cls arbitrary: n d)
  case Nil
  show ?case by simp
next
  case (Cons cl cls)
  obtain n1 d1 where s: "missed_call_loop cl (missed_calls now cl d) (n, d) = (n1, d1)"
    by (cases "missed_call_loop cl (missed_calls now cl d) (n, d)")
  from missed_call_loop_count[of cl "missed_calls now cl d" n d] s
  have "n1 + length (tasks d) = n + length (tasks d1)" by simp
  with Cons.IH[of n1 d1] show ?case by (simp add: s)
qed

lemma patient_by_phone_found:
  assumes "p \<in> set (patients d)" and "patient_clinic p = clinic_id cl"
    and "patient_phone p = ph"
  shows "patient_by_phone d cl ph \<noteq> None"
proof -
  let ?xs = "order_by (\<lambda>p. (last_name p, first_name p))
               (\<lambda>p. tie_rank d Patients (patient_id p))
               (filter (\<lambda>p. patient_clinic p = clinic_id cl \<and> patient_phone p = ph) (patients d))"
  from assms have "p \<in> set ?xs" by simp
  then obtain x xs' where "?xs = x # xs'"
    by (cases ?xs) auto
  then show ?thesis
    by (simp add: patient_by_phone_def first_def)
qed

text \<open>
  Claim C7. Take a call event of the last 24 hours with a duration of 15 seconds
  that did not result in an appointment and is not processed, whose caller phone is
  the phone of a patient of its clinic, an active clinic, and for which no task
  exists yet. One run of the callback generator leaves exactly one task with the key
  \<open>callback_call_<call_sid>\<close>; it is new, has type \<open>callback\<close> and priority 2 and
  refers to the call; the run counts at least this task and marks the call's row
  processed. A second run creates no task and changes nothing. Call rows have
  distinct primary keys and distinct \<open>call_sid\<close>s and tasks have distinct keys, as the
  schema guarantees.
\<close>

theorem callback_scenario:
  assumes ids: "distinct (map call_id (call_events d))"
    and sids: "distinct (map call_sid (call_events d))"
    and keys: "distinct (task_keys (tasks d))"
    and c: "c \<in> set (call_events d)"
    and cl: "cl \<in> set (clinics d)" "clinic_is_active cl" "call_clinic c = clinic_id cl"
    and recent: "now - timedelta_hours 24 \<le> call_timestamp c"
    and missed: "duration_seconds c = 15" "\<not> resulted_in_appointment c" "\<not> is_processed c"
    and p: "p \<in> set (patients d)" "patient_clinic p = clinic_id cl"
           "patient_phone p = caller_phone c"
    and fresh: "\<not> task_exists d (''callback_call_'' @ call_sid c)"
  shows "\<exists>t. filter (\<lambda>t. idempotency_key t = Some (''callback_call_'' @ call_sid c))
                (tasks (snd (generate_missed_call_tasks now d))) = [t] \<and>
             t \<notin> set (tasks d) \<and>
             task_type t = ''callback'' \<and> priority t = 2 \<and>
             source_type t = ''call_event'' \<and> source_id t = Some (call_id c) \<and>
             1 \<le> fst (generate_missed_call_tasks now d) \<and>
             c\<lparr>is_processed := True\<rparr> \<in> set (call_events (snd (generate_missed_call_tasks now d))) \<and>
             c \<notin> set (call_events (snd (generate_missed_call_tasks now d))) \<and>
             generate_missed_call_tasks now (snd (generate_missed_call_tasks now d)) =
               (0, snd (generate_missed_call_tasks now d))"
proof -
  let ?cls = "order_by clinic_name (\<lambda>c. tie_rank d Clinics (clinic_id c))
                (filter clinic_is_active (clinics d))"
  let ?G = "generate_missed_call_tasks now d"
  let ?d1 = "snd ?G"
  let ?k = "callback_key c"
  have G: "?G = clinic_loop now ?cls (0, d)"
    by (simp add: generate_missed_call_tasks_def)
  have k: "''callback_call_'' @ call_sid c = ?k"
    by (simp add: callback_key_def)
  have inv: "callback_inv d ?d1"
    unfolding G by (rule clinic_loop_inv[OF callback_inv_refl ids])
  then have g: "grows d ?d1" by (simp add: callback_inv_def)
  from inv obtain new where new: "tasks ?d1 = tasks d @ new"
    "\<forall>t\<in>set new. task_type t = ''callback'' \<and> priority t = 2 \<and>
       (\<exists>call\<in>set (call_events d).
          idempotency_key t = Some (callback_key call) \<and>
          source_id t = Some (call_id call) \<and>
          freeze call \<in> set (call_events ?d1))"
    unfolding callback_inv_def by blast
  from inv have rows: "\<forall>c'\<in>set (call_events ?d1).
      c' \<in> set (call_events d) \<or> task_exists ?d1 (callback_key c')"
    by (simp add: callback_inv_def)
  have ids1: "distinct (map call_id (call_events ?d1))"
    using grows_rows(3)[OF g] ids by simp
  have ne: "freeze c \<noteq> c"
    using missed(3) by (metis freeze_fields(3))
  have not_both: "\<not> (c \<in> set (call_events ?d1) \<and> freeze c \<in> set (call_events ?d1))"
    using distinct_id_eq[OF ids1, of c "freeze c"] ne by auto
  have fz_old: "freeze c \<notin> set (call_events d)"
    using distinct_id_eq[OF ids c, of "freeze c"] ne by auto
  have found: "patient_by_phone ?d1 cl (caller_phone c) \<noteq> None"
  proof -
    from g have "patients ?d1 = patients d" "tie_rank ?d1 = tie_rank d"
      by (simp_all add: grows_def)
    then have "patient_by_phone ?d1 cl (caller_phone c) = patient_by_phone d cl (caller_phone c)"
      by (simp add: patient_by_phone_def)
    with patient_by_phone_found[OF p] show ?thesis by simp
  qed
  have te: "task_exists ?d1 ?k"
  proof (cases "c \<in> set (call_events ?d1)")
    case True
    have "c \<in> set (missed_calls now cl ?d1)"
      using True cl(3) recent missed by (simp add: missed_calls_def Let_def)
    moreover have "cl \<in> set ?cls" using cl(1,2) by simp
    ultimately have "settled ?d1 cl c"
      unfolding G by (intro clinic_loop_settled)
    with found show ?thesis by (auto simp: settled_def)
  next
    case False
    with grows_rows(1)[OF g c] have "freeze c \<in> set (call_events ?d1)" by simp
    with rows fz_old show ?thesis by fastforce
  qed
  then obtain t where t: "t \<in> set (tasks ?d1)" "idempotency_key t = Some ?k"
    by (auto simp: task_exists_def list_ex_iff)
  have t_old: "t \<notin> set (tasks d)"
    using fresh t(2) unfolding k by (auto simp: task_exists_def list_ex_iff)
  with t(1) new(1) have t_new: "t \<in> set new" by simp
  with new(2) obtain call where call: "task_type t = ''callback''" "priority t = 2"
    "call \<in> set (call_events d)" "idempotency_key t = Some (callback_key call)"
    "source_id t = Some (call_id call)" "freeze call \<in> set (call_events ?d1)"
    by blast
  from call(4) t(2) have "call_sid call = call_sid c"
    by (simp add: callback_key_def)
  with distinct_sid_eq[OF sids call(3) c] have cc: "call = c" by simp
  have fz: "freeze c \<in> set (call_events ?d1)" using call(6) cc by simp
  with not_both have gone: "c \<notin> set (call_events ?d1)" by blast
  have st: "source_type t = ''call_event''"
  proof -
    have "\<forall>t\<in>set (tasks (snd (missed_call_loop cl' calls (n, d')))).
            t \<in> set (tasks d') \<or> source_type t = ''call_event''" for cl' calls n d'
    proof (induction calls arbitrary: n d')
      case Nil
      show ?case by simp
    next
      case (Cons call calls)
      have s: "t \<in> set (tasks (save_is_processed call
                  (task_create (callback_task cl' q call (callback_key call)) d'))) \<Longrightarrow>
               t \<in> set (tasks d') \<or> source_type t = ''call_event''" for t q
        by (auto simp: task_create_def callback_task_def)
      show ?case
        using Cons.IH[of n d']
          Cons.IH[of "n + 1" "save_is_processed call
                  (task_create (callback_task cl' q call (callback_key call)) d')" for q] s
        by (auto simp: Let_def split: option.splits) blast+
    qed
    note inner = this
    have "\<forall>t\<in>set (tasks (snd (clinic_loop now cls (n, d')))).
            t \<in> set (tasks d') \<or> source_type t = ''call_event''" for cls n d'
    proof (induction cls arbitrary: n d')
      case Nil
      show ?case by simp
    next
      case (Cons cl' cls)
      obtain n1 d1 where s: "missed_call_loop cl' (missed_calls now cl' d') (n, d') = (n1, d1)"
        by (cases "missed_call_loop cl' (missed_calls now cl' d') (n, d')")
      from inner[of cl' "missed_calls now cl' d'" n d'] s
      have 1: "\<forall>t\<in>set (tasks d1). t \<in> set (tasks d') \<or> source_type t = ''call_event''"
        by simp
      from Cons.IH[of n1 d1] 1 show ?case by (auto simp: s)
    qed
    from this[of ?cls 0 d] t(1) t_old show ?thesis unfolding G by blast
  qed
  have le: "length (filter (\<lambda>t. idempotency_key t = Some ?k) (tasks ?d1)) \<le> 1"
    by (rule filter_key_le_1[OF callback_distinct[OF keys]])
  have mem: "t \<in> set (filter (\<lambda>t. idempotency_key t = Some ?k) (tasks ?d1))"
    using t by simp
  have one: "filter (\<lambda>t. idempotency_key t = Some ?k) (tasks ?d1) = [t]"
  proof (cases "filter (\<lambda>t. idempotency_key t = Some ?k) (tasks ?d1)")
    case Nil
    with mem show ?thesis by simp
  next
    case (Cons x xs)
    with le have "xs = []" by simp
    with Cons mem show ?thesis by simp
  qed
  have cnt: "1 \<le> fst ?G"
  proof -
    from clinic_loop_count[of now ?cls 0 d] new(1)
    have "fst ?G = length new" unfolding G by simp
    moreover from t_new have "new \<noteq> []" by auto
    ultimately show ?thesis by (cases new) simp_all
  qed
  have fzc: "c\<lparr>is_processed := True\<rparr> = freeze c" by (simp add: freeze_def)
  show ?thesis
    unfolding k fzc
    using one t_old call(1,2) st call(5)[unfolded cc] cnt fz gone callback_idempotent[of now d]
    by (intro exI[of _ t] conjI)
qed

lemma ex_callback_run:
  "fst (generate_missed_call_tasks ex_now ex_db) = 1 \<and>
   map idempotency_key (tasks (snd (generate_missed_call_tasks ex_now ex_db))) =
     [Some ''callback_call_CA2''] \<and>
   map is_processed (call_events (snd (generate_missed_call_tasks ex_now ex_db))) = [True, True]"
  by code_simp

theorem callback_scenario_witness:
  "distinct (map call_id (call_events ex_db)) \<and>
   distinct (map call_sid (call_events ex_db)) \<and>
   distinct (task_keys (tasks ex_db)) \<and>
   ex_missed_call \<in> set (call_events ex_db) \<and>
   ex_clinic \<in> set (clinics ex_db) \<and> clinic_is_active ex_clinic \<and>
   call_clinic ex_missed_call = clinic_id ex_clinic \<and>
   ex_now - timedelta_hours 24 \<le> call_timestamp ex_missed_call \<and>
   duration_seconds ex_missed_call = 15 \<and> \<not> resulted_in_appointment ex_missed_call \<and>
   \<not> is_processed ex_missed_call \<and>
   ex_patient \<in> set (patients ex_db) \<and> patient_clinic ex_patient = clinic_id ex_clinic \<and>
   patient_phone ex_patient = caller_phone ex_missed_call \<and>
   \<not> task_exists ex_db (''callback_call_'' @ call_sid ex_missed_call) \<and>
   (\<exists>t. filter (\<lambda>t. idempotency_key t = Some (''callback_call_'' @ call_sid ex_missed_call))
           (tasks (snd (generate_missed_call_tasks ex_now ex_db))) = [t] \<and>
        t \<notin> set (tasks ex_db) \<and>
        task_type t = ''callback'' \<and> priority t = 2 \<and>
        source_type t = ''call_event'' \<and> source_id t = Some (call_id ex_missed_call) \<and>
        1 \<le> fst (generate_missed_call_tasks ex_now ex_db) \<and>
        ex_missed_call\<lparr>is_processed := True\<rparr>
          \<in> set (call_events (snd (generate_missed_call_tasks ex_now ex_db))) \<and>
        ex_missed_call \<notin> set (call_events (snd (generate_missed_call_tasks ex_now ex_db))) \<and>
        generate_missed_call_tasks ex_now (snd (generate_missed_call_tasks ex_now ex_db)) =
          (0, snd (generate_missed_call_tasks ex_now ex_db))) \<and>
   fst (generate_missed_call_tasks ex_now ex_db) = 1 \<and>
   map idempotency_key (tasks (snd (generate_missed_call_tasks ex_now ex_db))) =
     [Some ''callback_call_CA2'']"
proof -
  have h1: "distinct (map call_id (call_events ex_db))"
    by (simp add: ex_db_def ex_paid_call_def ex_missed_call_def)
  have h2: "distinct (map call_sid (call_events ex_db))"
    by (simp add: ex_db_def ex_paid_call_def ex_missed_call_def)
  have h3: "distinct (task_keys (tasks ex_db))"
    by (simp add: ex_db_def task_keys_def map_filter_def)
  have h4: "ex_missed_call \<in> set (call_events ex_db)"
    by (simp add: ex_db_def)
  have h5: "ex_clinic \<in> set (clinics ex_db)" "clinic_is_active ex_clinic"
    "call_clinic ex_missed_call = clinic_id ex_clinic"
    by (simp_all add: ex_db_def ex_clinic_def ex_missed_call_def)
  have h6: "ex_now - timedelta_hours 24 \<le> call_timestamp ex_missed_call"
    by (simp add: ex_now_def timedelta_hours_def ex_missed_call_def)
  have h7: "duration_seconds ex_missed_call = 15" "\<not> resulted_in_appointment ex_missed_call"
    "\<not> is_processed ex_missed_call"
    by (simp_all add: ex_missed_call_def)
  have h8: "ex_patient \<in> set (patients ex_db)" "patient_clinic ex_patient = clinic_id ex_clinic"
    "patient_phone ex_patient = caller_phone ex_missed_call"
    by (simp_all add: ex_db_def ex_patient_def ex_clinic_def ex_missed_call_def)
  have h9: "\<not> task_exists ex_db (''callback_call_'' @ call_sid ex_missed_call)"
    by (simp add: task_exists_def ex_db_def)
  note t = callback_scenario[OF h1 h2 h3 h4 h5 h6 h7 h8 h9]
  show ?thesis
    by (intro conjI h1 h2 h3 h4 h5 h6 h7 h8 h9 t ex_callback_run[THEN conjunct1]
        ex_callback_run[THEN conjunct2, THEN conjunct1])
qed

end
